theory Spec2Isabelle
  imports Complex_Main "HOL-Library.Multiset"
begin

section \<open>Constants of the tag pipeline\<close>

text \<open>
  The constants at the head of \<^verbatim>\<open>src/api/admin/[action].js\<close> and
  \<^verbatim>\<open>src/api/data/[action].js\<close>. Instants are integers counting milliseconds
  (what \<^verbatim>\<open>Date.parse\<close> and \<^verbatim>\<open>getTime\<close> return); a column holding no
  timestamp, or one that does not parse, is \<open>None\<close>.
\<close>

definition TAG_QUIET_MINUTES :: int where "TAG_QUIET_MINUTES = 5"
definition TAG_MAX_WAIT_MINUTES :: int where "TAG_MAX_WAIT_MINUTES = 30"
definition TAG_MIN_SAMPLE_COUNT :: nat where "TAG_MIN_SAMPLE_COUNT = 5"
definition TAG_TOP_ISSUES :: nat where "TAG_TOP_ISSUES = 50"
definition TAG_LIMIT :: nat where "TAG_LIMIT = 8"
definition DICT_MERGE_QUIET_MINUTES :: int where "DICT_MERGE_QUIET_MINUTES = 10"
definition DICT_MERGE_MIN_LABELS :: nat where "DICT_MERGE_MIN_LABELS = 4"
definition DICT_MERGE_MAX_LABELS :: nat where "DICT_MERGE_MAX_LABELS = 120"

text \<open>\<^verbatim>\<open>addMinutesIso\<close> on a valid instant: \<open>base + minutes * 60 * 1000\<close>.\<close>

definition addMinutesIso :: "int \<Rightarrow> int \<Rightarrow> int" where
  "addMinutesIso base minutes = base + minutes * 60 * 1000"

section \<open>Strings\<close>

text \<open>
  Strings are lists of 8-bit characters. Whitespace (the class \<^verbatim>\<open>\s\<close> and what
  \<^verbatim>\<open>trim\<close> strips) is taken over the ASCII range: tab, line feed, vertical tab,
  form feed, carriage return and space. \<^verbatim>\<open>toLowerCase\<close> folds the letters A to Z
  and keeps every other character.
\<close>

definition isSpace :: "char \<Rightarrow> bool" where
  "isSpace c = (c \<in> set [CHR 0x09, CHR 0x0A, CHR 0x0B, CHR 0x0C, CHR 0x0D, CHR '' ''])"

definition trim :: "string \<Rightarrow> string" where
  "trim s = rev (dropWhile isSpace (rev (dropWhile isSpace s)))"

definition toLowerChar :: "char \<Rightarrow> char" where
  "toLowerChar c =
     (case map_of (zip ''ABCDEFGHIJKLMNOPQRSTUVWXYZ'' ''abcdefghijklmnopqrstuvwxyz'') c of
        Some l \<Rightarrow> l
      | None \<Rightarrow> c)"

definition toLowerCase :: "string \<Rightarrow> string" where
  "toLowerCase s = map toLowerChar s"

text \<open>
  \<^verbatim>\<open>normalizeTagLabel\<close>: the empty label gives the empty string; otherwise every run of
  whitespace is deleted, the rest trimmed and folded to lower case.
\<close>

definition normalizeTagLabel :: "string \<Rightarrow> string" where
  "normalizeTagLabel label =
     (if label = [] then [] else toLowerCase (trim (filter (\<lambda>c. \<not> isSpace c) label)))"

text \<open>\<^verbatim>\<open>replace(/\s+/g, ' ')\<close>: every maximal run of whitespace becomes one space.\<close>

function collapseSpaces :: "string \<Rightarrow> string" where
  "collapseSpaces [] = []"
| "collapseSpaces (c # cs) =
     (if isSpace c then CHR '' '' # collapseSpaces (dropWhile isSpace cs)
      else c # collapseSpaces cs)"
  by pat_completeness auto
termination
  by (relation "measure length") (auto simp: length_dropWhile_le less_Suc_eq_le)

definition normalizeIssueText :: "string \<Rightarrow> string" where
  "normalizeIssueText text = (if text = [] then [] else trim (collapseSpaces text))"

section \<open>Ranking the model's tags\<close>

text \<open>
  One element of the \<^verbatim>\<open>tags\<close> array of the model's answer, seen through the reads the
  code makes of it: \<^verbatim>\<open>tag.label\<close> and \<^verbatim>\<open>tag.tag\<close> when they are strings,
  \<^verbatim>\<open>parseInt(tag.count, 10)\<close> (\<open>None\<close> for NaN), and \<^verbatim>\<open>tag.examples\<close> when it is
  an array (an element that is not a string is \<open>None\<close>).
\<close>

record raw_tag =
  rt_label :: "string option"
  rt_tag :: "string option"
  rt_count :: "int option"
  rt_examples :: "string option list option"

record norm_tag =
  nt_label :: string
  nt_count :: int
  nt_examples :: "string list option"

definition tagLabelOf :: "raw_tag \<Rightarrow> string" where
  "tagLabelOf tag =
     (case rt_label tag of
        Some l \<Rightarrow> trim l
      | None \<Rightarrow> (case rt_tag tag of Some t \<Rightarrow> trim t | None \<Rightarrow> []))"

definition tagExamplesOf :: "raw_tag \<Rightarrow> string list option" where
  "tagExamplesOf tag =
     (case rt_examples tag of
        None \<Rightarrow> None
      | Some items \<Rightarrow>
          Some (take 2 (filter (\<lambda>item. length item > 0)
            (map (\<lambda>item. case item of Some s \<Rightarrow> trim s | None \<Rightarrow> []) items))))"

text \<open>The callback of \<^verbatim>\<open>rawTags.map\<close> in \<^verbatim>\<open>aggregateAssignmentTags\<close>; \<open>None\<close> is its \<^verbatim>\<open>null\<close>.\<close>

definition normalizeTag :: "int \<Rightarrow> raw_tag \<Rightarrow> norm_tag option" where
  "normalizeTag sampleCount tag =
     (let label = tagLabelOf tag in
      case rt_count tag of
        None \<Rightarrow> None
      | Some cnt \<Rightarrow>
          if label = [] \<or> cnt \<le> 0 then None
          else Some \<lparr> nt_label = label, nt_count = min cnt sampleCount,
                      nt_examples = tagExamplesOf tag \<rparr>)"

text \<open>
  \<^verbatim>\<open>.sort((a, b) => b.count - a.count)\<close>: the sort of the language is stable, and so is
  insertion sort on the negated key.
\<close>

definition sortByCountDesc :: "('a \<Rightarrow> int) \<Rightarrow> 'a list \<Rightarrow> 'a list" where
  "sortByCountDesc cnt xs = sort_key (\<lambda>x. - cnt x) xs"

definition normalizedTags :: "int \<Rightarrow> raw_tag list \<Rightarrow> norm_tag list" where
  "normalizedTags sampleCount rawTags =
     take TAG_LIMIT (sortByCountDesc nt_count (List.map_filter (normalizeTag sampleCount) rawTags))"

section \<open>Issue statistics\<close>

text \<open>
  A row of the \<^verbatim>\<open>submissions\<close> table, with the columns the pipeline reads. The column
  \<^verbatim>\<open>grading_result\<close> is \<^verbatim>\<open>null\<close>, a value that yields no grading object (the
  empty string, a string that is not JSON, a scalar), or a grading object. Of a grading
  object the code reads \<^verbatim>\<open>mistakes\<close> and \<^verbatim>\<open>weaknesses\<close> (\<open>None\<close> when the field
  is not an array); of an element of \<^verbatim>\<open>mistakes\<close> it reads \<^verbatim>\<open>reason\<close> and
  \<^verbatim>\<open>question\<close>, each the empty string when absent.
\<close>

datatype mistake_item = NotAnObject | Mistake string string

record grading =
  g_mistakes :: "mistake_item list option"
  g_weaknesses :: "string list option"

datatype grading_raw = GrNull | GrInvalid | GrObject grading

record submission =
  sub_id :: string
  sub_owner_id :: string
  sub_assignment_id :: string
  sub_student_id :: "string option"
  sub_grading_result :: grading_raw
  sub_status :: "string option"

definition parseGradingResult :: "grading_raw \<Rightarrow> grading option" where
  "parseGradingResult raw = (case raw of GrNull \<Rightarrow> None | GrInvalid \<Rightarrow> None | GrObject g \<Rightarrow> Some g)"

fun joinWith :: "string \<Rightarrow> string list \<Rightarrow> string" where
  "joinWith sep [] = []"
| "joinWith sep [x] = x"
| "joinWith sep (x # y # ys) = x @ sep @ joinWith sep (y # ys)"

definition mistakeText :: "mistake_item \<Rightarrow> string" where
  "mistakeText item =
     (case item of
        NotAnObject \<Rightarrow> []
      | Mistake reason question \<Rightarrow> joinWith '' '' (filter (\<lambda>s. s \<noteq> []) [reason, question]))"

definition extractIssuesFromGrading :: "grading option \<Rightarrow> string list" where
  "extractIssuesFromGrading g =
     (case g of
        None \<Rightarrow> []
      | Some grading \<Rightarrow>
          (let mistakes = (case g_mistakes grading of Some ms \<Rightarrow> ms | None \<Rightarrow> []) in
           if length mistakes > 0
           then filter (\<lambda>text. length text > 0) (map normalizeIssueText (map mistakeText mistakes))
           else (let weaknesses = (case g_weaknesses grading of Some ws \<Rightarrow> ws | None \<Rightarrow> [])
                 in filter (\<lambda>text. length text > 0) (map normalizeIssueText weaknesses))))"

text \<open>
  \<^verbatim>\<open>new Set(xs)\<close> iterated: the distinct elements in the order of their first
  occurrence. \<^verbatim>\<open>set.add(x)\<close> on such a list appends \<open>x\<close> when it is new.
\<close>

fun uniqFirst :: "'a list \<Rightarrow> 'a list" where
  "uniqFirst [] = []"
| "uniqFirst (x # xs) = x # uniqFirst (filter (\<lambda>y. y \<noteq> x) xs)"

definition setAdd :: "'a \<Rightarrow> 'a list \<Rightarrow> 'a list" where
  "setAdd x xs = (if x \<in> set xs then xs else xs @ [x])"

text \<open>
  \<^verbatim>\<open>issueMap\<close> of \<^verbatim>\<open>buildIssueStats\<close>: a Map from issue to the Set of owner keys, kept
  as an association list in insertion order.
\<close>

type_synonym issue_map = "(string \<times> string list) list"

definition ownerKeyOf :: "submission \<Rightarrow> string" where
  "ownerKeyOf sub =
     (case sub_student_id sub of
        Some sid \<Rightarrow> if sid \<noteq> [] then sid else sub_id sub
      | None \<Rightarrow> sub_id sub)"

definition issuesOf :: "submission \<Rightarrow> string list" where
  "issuesOf sub = extractIssuesFromGrading (parseGradingResult (sub_grading_result sub))"

definition addIssue :: "string \<Rightarrow> issue_map \<Rightarrow> string \<Rightarrow> issue_map" where
  "addIssue ownerKey m issue =
     (let m1 = (if issue \<in> fst ` set m then m else m @ [(issue, [])]) in
      if ownerKey \<noteq> []
      then map (\<lambda>(k, bucket). if k = issue then (k, setAdd ownerKey bucket) else (k, bucket)) m1
      else m1)"

definition addSubmission :: "issue_map \<Rightarrow> submission \<Rightarrow> issue_map" where
  "addSubmission m sub =
     (let issues = issuesOf sub in
      if issues = [] then m else foldl (addIssue (ownerKeyOf sub)) m (uniqFirst issues))"

definition buildIssueStats :: "submission list \<Rightarrow> (string \<times> nat) list" where
  "buildIssueStats submissions =
     sortByCountDesc (\<lambda>e. int (snd e))
       (map (\<lambda>(issue, bucket). (issue, length bucket)) (foldl addSubmission [] submissions))"

text \<open>
  The two lines of \<^verbatim>\<open>aggregateAssignmentTags\<close> that select the graded submissions and cut
  the statistics to the first \<^verbatim>\<open>TAG_TOP_ISSUES\<close> entries.
\<close>

definition gradedSubmissions :: "submission list \<Rightarrow> submission list" where
  "gradedSubmissions submissions =
     filter (\<lambda>row. sub_grading_result row \<noteq> GrNull \<or> sub_status row = Some ''graded'') submissions"

definition issueStats :: "submission list \<Rightarrow> (string \<times> nat) list" where
  "issueStats graded = take TAG_TOP_ISSUES (buildIssueStats graded)"

text \<open>The distinct owner keys that produced an issue: what the count of the issue should be.\<close>

definition studentsWithIssue :: "submission list \<Rightarrow> string \<Rightarrow> string set" where
  "studentsWithIssue submissions issue =
     {ownerKeyOf sub | sub. sub \<in> set submissions \<and> issue \<in> set (issuesOf sub) \<and> ownerKeyOf sub \<noteq> []}"

section \<open>Tables\<close>

text \<open>
  The rows of \<^verbatim>\<open>assignment_tag_state\<close>, \<^verbatim>\<open>tag_dictionary\<close>,
  \<^verbatim>\<open>assignment_tag_aggregates\<close> and \<^verbatim>\<open>tag_dictionary_state\<close>. Identifiers of
  owners and assignments are strings; the identifier of a dictionary entry is a number
  that the table assigns on insertion.
\<close>

datatype status = Idle | Pending | Running | Ready | Failed | InsufficientSamples

record tag_state =
  st_owner_id :: string
  st_assignment_id :: string
  st_status :: status
  st_sample_count :: "int option"
  st_window_started_at :: "int option"
  st_last_event_at :: "int option"
  st_next_run_at :: "int option"
  st_last_generated_at :: "int option"
  st_dirty :: bool
  st_manual_locked :: bool
  st_model :: "string option"
  st_prompt_version :: "string option"
  st_updated_at :: "int option"

datatype dict_status = Active | Merged

record dict_entry =
  de_id :: nat
  de_owner_id :: string
  de_label :: string
  de_normalized_label :: string
  de_status :: dict_status
  de_merged_to_tag_id :: "nat option"
  de_updated_at :: int

record agg_row =
  ar_owner_id :: string
  ar_assignment_id :: string
  ar_tag_label :: string
  ar_tag_count :: int
  ar_examples :: "string list option"
  ar_generated_at :: int
  ar_model :: string
  ar_prompt_version :: string

datatype merge_status = MergeIdle | MergePending | MergeRunning | MergeFailed

record merge_state =
  ms_status :: merge_status
  ms_next_run_at :: "int option"
  ms_error_message :: "string option"
  ms_updated_at :: int

record db =
  db_submissions :: "submission list"
  db_states :: "string \<times> string \<rightharpoonup> tag_state"
  db_dictionary :: "dict_entry list"
  db_aggregates :: "agg_row list"
  db_merge_state :: "string \<rightharpoonup> merge_state"

text \<open>
  Every call of the storage client returns a result whose \<^verbatim>\<open>error\<close> field the code
  may or may not inspect. The calls are named by their place in the source; a fault
  assignment gives the error message of the calls that fail. A failing call leaves the
  tables as they are.
\<close>

datatype call =
    TouchSelect | TouchUpsert
  | SyncEarlierSteps | SyncSubmissionsUpsert | SyncFoldersStep
  | AssignmentSelect | LockedUpdate | RunningUpdate | SubmissionsSelect | InsufficientUpdate
  | EmptyAggDelete | DictionarySelect | DictionaryInsert | MergeStateUpsert
  | AggDelete | AggInsert | FinalizeSelect | FinalizeUpdate | FailedUpdate
  | OvStateSelect | OvDictionarySelect | OvDictionaryInsert | OvAggDelete | OvAggInsert
  | OvStateUpsert
  | MgDictionarySelect | MgUsageSelect | MgCanonicalInsert | MgCanonicalUpdate
  | MgMergeUpsert | MgAbilityMapping
  | AbMappingSelect | AbTagSelect | AbAggSelect | AbAssignmentSelect | AbDelete | AbInsert

type_synonym faults = "call \<Rightarrow> string option"

definition noFaults :: faults where
  "noFaults = (\<lambda>c. None)"

definition sameScope :: "string \<Rightarrow> string \<Rightarrow> agg_row \<Rightarrow> bool" where
  "sameScope ownerId assignmentId r = (ar_owner_id r = ownerId \<and> ar_assignment_id r = assignmentId)"

definition scopeRows :: "db \<Rightarrow> string \<Rightarrow> string \<Rightarrow> agg_row list" where
  "scopeRows d ownerId assignmentId = filter (sameScope ownerId assignmentId) (db_aggregates d)"

definition otherRows :: "db \<Rightarrow> string \<Rightarrow> string \<Rightarrow> agg_row list" where
  "otherRows d ownerId assignmentId =
     filter (\<lambda>r. \<not> sameScope ownerId assignmentId r) (db_aggregates d)"

text \<open>\<^verbatim>\<open>.update(...).eq('owner_id', ...).eq('assignment_id', ...)\<close>: changes the row if there is one.\<close>

definition updateState :: "db \<Rightarrow> string \<times> string \<Rightarrow> (tag_state \<Rightarrow> tag_state) \<Rightarrow> db" where
  "updateState d key f =
     (case db_states d key of
        None \<Rightarrow> d
      | Some st \<Rightarrow> d\<lparr> db_states := (db_states d)(key \<mapsto> f st) \<rparr>)"

text \<open>The row an upsert creates when the key is new: the columns it does not name are empty.\<close>

definition newStateRow :: "string \<Rightarrow> string \<Rightarrow> tag_state" where
  "newStateRow ownerId assignmentId =
     \<lparr> st_owner_id = ownerId, st_assignment_id = assignmentId, st_status = Idle,
       st_sample_count = None, st_window_started_at = None, st_last_event_at = None,
       st_next_run_at = None, st_last_generated_at = None, st_dirty = False,
       st_manual_locked = False, st_model = None, st_prompt_version = None,
       st_updated_at = None \<rparr>"

section \<open>The touch hook\<close>

text \<open>
  \<^verbatim>\<open>touchAssignmentTagStates\<close> of \<^verbatim>\<open>src/api/data/[action].js\<close>. \<open>touchRow\<close> is the
  callback of \<^verbatim>\<open>assignmentIds.map\<close> followed by the upsert of that row: the columns
  the row names replace the stored ones, and \<^verbatim>\<open>next_run_at\<close>, which
  \<^verbatim>\<open>compactObject\<close> drops for a locked state, keeps its stored value.
\<close>

definition touchRow :: "int \<Rightarrow> string \<Rightarrow> string \<Rightarrow> tag_state option \<Rightarrow> tag_state" where
  "touchRow now ownerId assignmentId existing =
     (let nowIso = now;
          nextRunAtIso = addMinutesIso now TAG_QUIET_MINUTES;
          isManualLocked = (case existing of Some e \<Rightarrow> st_manual_locked e | None \<Rightarrow> False);
          status = (if isManualLocked then Ready
                    else (case existing of Some e \<Rightarrow> st_status e | None \<Rightarrow> Idle));
          isRunning = (status = Running);
          resetWindow =
            ((case existing of None \<Rightarrow> True | Some e \<Rightarrow> st_window_started_at e = None)
             \<or> status = Idle \<or> status = Failed \<or> status = Ready \<or> status = InsufficientSamples);
          windowStartedAt =
            (if resetWindow then Some nowIso
             else (case existing of Some e \<Rightarrow> st_window_started_at e | None \<Rightarrow> Some nowIso));
          stored = (case existing of Some e \<Rightarrow> e | None \<Rightarrow> newStateRow ownerId assignmentId)
      in stored\<lparr>
           st_owner_id := ownerId,
           st_assignment_id := assignmentId,
           st_status := (if isManualLocked then Ready else if isRunning then Running else Pending),
           st_window_started_at := windowStartedAt,
           st_last_event_at := Some nowIso,
           st_next_run_at := (if isManualLocked then st_next_run_at stored else Some nextRunAtIso),
           st_dirty := (if isManualLocked then False else if isRunning then True
                        else (case existing of Some e \<Rightarrow> st_dirty e | None \<Rightarrow> False)),
           st_manual_locked := (if isManualLocked then True
                        else (case existing of Some e \<Rightarrow> st_manual_locked e | None \<Rightarrow> False)),
           st_updated_at := Some nowIso \<rparr>)"

definition upsertStates :: "(string \<times> string \<rightharpoonup> tag_state) \<Rightarrow> tag_state list \<Rightarrow> (string \<times> string \<rightharpoonup> tag_state)" where
  "upsertStates m rows = foldl (\<lambda>acc r. acc((st_owner_id r, st_assignment_id r) \<mapsto> r)) m rows"

text \<open>The result is the message of the error thrown, if any, and the tables afterwards.\<close>

definition touchAssignmentTagStates ::
  "faults \<Rightarrow> db \<Rightarrow> int \<Rightarrow> string \<Rightarrow> string list \<Rightarrow> string option \<times> db" where
  "touchAssignmentTagStates fault d now ownerId assignmentIds =
     (if assignmentIds = [] then (None, d)
      else case fault TouchSelect of
        Some e \<Rightarrow> (Some e, d)
      | None \<Rightarrow>
          (let rows = map (\<lambda>a. touchRow now ownerId a (db_states d (ownerId, a))) assignmentIds in
           if rows = [] then (None, d)
           else case fault TouchUpsert of
             Some e \<Rightarrow> (Some e, d)
           | None \<Rightarrow> (None, d\<lparr> db_states := upsertStates (db_states d) rows \<rparr>)))"

section \<open>The sweep filter\<close>

text \<open>
  The status filter of the query in \<^verbatim>\<open>handleAggregateTags\<close> and the callback of
  \<^verbatim>\<open>states.filter\<close> that computes \<^verbatim>\<open>dueStates\<close>.
\<close>

definition selectStates :: "bool \<Rightarrow> tag_state list \<Rightarrow> tag_state list" where
  "selectStates includeReady states =
     (if includeReady
      then filter (\<lambda>row. st_status row \<in> set [Pending, Ready, Failed, InsufficientSamples]) states
      else filter (\<lambda>row. st_status row = Pending) states)"

definition isDue :: "int \<Rightarrow> tag_state \<Rightarrow> bool" where
  "isDue nowMs row =
     (let quietDue =
            (if (case st_next_run_at row of Some nextRunAtMs \<Rightarrow> nowMs \<ge> nextRunAtMs | None \<Rightarrow> False)
             then True
             else (case st_last_event_at row of
                     Some lastEventMs \<Rightarrow> nowMs - lastEventMs \<ge> TAG_QUIET_MINUTES * 60 * 1000
                   | None \<Rightarrow> False));
          maxWaitDue =
            (case st_window_started_at row of
               Some windowStartMs \<Rightarrow> nowMs - windowStartMs \<ge> TAG_MAX_WAIT_MINUTES * 60 * 1000
             | None \<Rightarrow> False)
      in quietDue \<or> maxWaitDue)"

definition dueStates :: "bool \<Rightarrow> int \<Rightarrow> tag_state list \<Rightarrow> tag_state list" where
  "dueStates force nowMs states = (if force then states else filter (isDue nowMs) states)"

section \<open>Finishing a run\<close>

text \<open>
  \<^verbatim>\<open>finalizeAssignmentTagState\<close>. The deadline \<^verbatim>\<open>addMinutesIso(lastEventAt, ...)\<close> is
  always defined here, instants being valid.
\<close>

definition finalizeAssignmentTagState ::
  "faults \<Rightarrow> db \<Rightarrow> string \<Rightarrow> string \<Rightarrow> int \<Rightarrow> int \<Rightarrow> string \<Rightarrow> string \<Rightarrow> string option \<times> db" where
  "finalizeAssignmentTagState fault d ownerId assignmentId nowIso sampleCount model promptVersion =
     (case fault FinalizeSelect of
        Some e \<Rightarrow> (Some e, d)
      | None \<Rightarrow>
          (let latest = db_states d (ownerId, assignmentId);
               baseUpdate = (\<lambda>st. st\<lparr> st_sample_count := Some sampleCount,
                                       st_last_generated_at := Some nowIso,
                                       st_model := Some model,
                                       st_prompt_version := Some promptVersion,
                                       st_updated_at := Some nowIso,
                                       st_dirty := False \<rparr>)
           in if (case latest of Some l \<Rightarrow> st_dirty l | None \<Rightarrow> False)
              then (let lastEventAt =
                          (case latest of
                             Some l \<Rightarrow> (case st_last_event_at l of Some t \<Rightarrow> t | None \<Rightarrow> nowIso)
                           | None \<Rightarrow> nowIso);
                        nextRunAt = addMinutesIso lastEventAt TAG_QUIET_MINUTES
                    in case fault FinalizeUpdate of
                         Some e \<Rightarrow> (Some e, d)
                       | None \<Rightarrow>
                           (None, updateState d (ownerId, assignmentId)
                              (\<lambda>st. (baseUpdate st)\<lparr> st_status := Pending,
                                                       st_window_started_at := Some lastEventAt,
                                                       st_next_run_at := Some nextRunAt \<rparr>)))
              else (case fault FinalizeUpdate of
                      Some e \<Rightarrow> (Some e, d)
                    | None \<Rightarrow>
                        (None, updateState d (ownerId, assignmentId)
                           (\<lambda>st. (baseUpdate st)\<lparr> st_status := Ready \<rparr>)))))"

section \<open>The clustering run\<close>

text \<open>
  The rows built by \<^verbatim>\<open>normalizedTags.map\<close> for the insert into
  \<^verbatim>\<open>assignment_tag_aggregates\<close>.
\<close>

definition aggregateRows ::
  "string \<Rightarrow> string \<Rightarrow> int \<Rightarrow> string \<Rightarrow> string \<Rightarrow> norm_tag list \<Rightarrow> agg_row list" where
  "aggregateRows ownerId assignmentId nowIso model promptVersion tags =
     map (\<lambda>tag. \<lparr> ar_owner_id = ownerId, ar_assignment_id = assignmentId,
                   ar_tag_label = nt_label tag, ar_tag_count = nt_count tag,
                   ar_examples = nt_examples tag, ar_generated_at = nowIso,
                   ar_model = model, ar_prompt_version = promptVersion \<rparr>) tags"

text \<open>
  The delete followed by the insert, as both \<^verbatim>\<open>aggregateAssignmentTags\<close> and the manual
  override write them: the result of the delete is not inspected, the error of the insert
  is thrown. The two arguments are the errors the two calls return.
\<close>

definition deleteAggregates :: "string option \<Rightarrow> db \<Rightarrow> string \<Rightarrow> string \<Rightarrow> db" where
  "deleteAggregates deleteError d ownerId assignmentId =
     (case deleteError of
        Some e \<Rightarrow> d
      | None \<Rightarrow> d\<lparr> db_aggregates := otherRows d ownerId assignmentId \<rparr>)"

definition insertAggregates :: "string option \<Rightarrow> db \<Rightarrow> agg_row list \<Rightarrow> string option \<times> db" where
  "insertAggregates insertError d rows =
     (case insertError of
        Some e \<Rightarrow> (Some e, d)
      | None \<Rightarrow> (None, d\<lparr> db_aggregates := db_aggregates d @ rows \<rparr>))"

definition replaceAggregates ::
  "string option \<Rightarrow> string option \<Rightarrow> db \<Rightarrow> string \<Rightarrow> string \<Rightarrow> agg_row list \<Rightarrow> string option \<times> db" where
  "replaceAggregates deleteError insertError d ownerId assignmentId rows =
     insertAggregates insertError (deleteAggregates deleteError d ownerId assignmentId) rows"

text \<open>
  The dictionary: the key under which a stored row enters \<^verbatim>\<open>dictionaryMap\<close>, the rows
  pushed to \<^verbatim>\<open>newDictionaryRows\<close> (the map is not changed while the tags are visited),
  and the insert, which numbers the new entries. Every row pushed has the status active,
  which the insert writes.
\<close>

definition dictKey :: "dict_entry \<Rightarrow> string" where
  "dictKey row =
     (if de_normalized_label row \<noteq> [] then de_normalized_label row
      else normalizeTagLabel (de_label row))"

record dict_insert =
  di_owner_id :: string
  di_label :: string
  di_normalized_label :: string
  di_updated_at :: int

definition newDictionaryRows :: "string list \<Rightarrow> string \<Rightarrow> int \<Rightarrow> norm_tag list \<Rightarrow> dict_insert list" where
  "newDictionaryRows dictionaryKeys ownerId nowIso tags =
     map (\<lambda>tag. \<lparr> di_owner_id = ownerId, di_label = nt_label tag,
                   di_normalized_label = normalizeTagLabel (nt_label tag),
                   di_updated_at = nowIso \<rparr>)
       (filter (\<lambda>tag. normalizeTagLabel (nt_label tag) \<notin> set dictionaryKeys) tags)"

definition nextId :: "dict_entry list \<Rightarrow> nat" where
  "nextId dict = Suc (fold max (map de_id dict) 0)"

fun insertDictionaryRows :: "dict_entry list \<Rightarrow> dict_insert list \<Rightarrow> dict_entry list" where
  "insertDictionaryRows dict [] = dict"
| "insertDictionaryRows dict (r # rs) =
     insertDictionaryRows
       (dict @ [\<lparr> de_id = nextId dict, de_owner_id = di_owner_id r, de_label = di_label r,
                  de_normalized_label = di_normalized_label r, de_status = Active,
                  de_merged_to_tag_id = None, de_updated_at = di_updated_at r \<rparr>]) rs"

definition touchDictionaryMergeState :: "faults \<Rightarrow> db \<Rightarrow> string \<Rightarrow> int \<Rightarrow> string option \<times> db" where
  "touchDictionaryMergeState fault d ownerId nowIso =
     (if ownerId = [] then (None, d)
      else case fault MergeStateUpsert of
        Some e \<Rightarrow> (Some e, d)
      | None \<Rightarrow>
          (None, d\<lparr> db_merge_state := (db_merge_state d)(ownerId \<mapsto>
             \<lparr> ms_status = MergePending,
               ms_next_run_at = Some (addMinutesIso nowIso DICT_MERGE_QUIET_MINUTES),
               ms_error_message = None, ms_updated_at = nowIso \<rparr>) \<rparr>))"

definition TAG_MODEL :: string where "TAG_MODEL = ''gemini-3-flash-preview''"
definition TAG_PROMPT_VERSION :: string where "TAG_PROMPT_VERSION = ''v1.0''"

text \<open>
  \<^verbatim>\<open>aggregateAssignmentTags\<close>, in three parts that follow one another in the source:
  up to the update that marks the state running; from the query of the submissions to the
  check of the model's tags; from the dictionary insert to the end. The answer of the
  text-generation call is a parameter: the error it throws, or the \<^verbatim>\<open>tags\<close> array
  read from its text (empty when the text holds no such array). The result is the error
  thrown or the value returned, with the tables as the call leaves them. The refresh of
  the domain aggregates that ends the function writes another table and its errors are
  caught, so it does not appear.
\<close>

datatype run_status = RunLocked | RunInsufficientSamples | RunReady

type_synonym run_outcome = "(string + run_status \<times> int) \<times> db"

definition writeTags ::
  "faults \<Rightarrow> int \<Rightarrow> db \<Rightarrow> string \<Rightarrow> string \<Rightarrow> int \<Rightarrow> norm_tag list \<Rightarrow> run_outcome" where
  "writeTags fault nowIso d ownerId assignmentId sampleCount tags =
     (let dictionaryRows =
            filter (\<lambda>row. de_owner_id row = ownerId \<and> de_status row = Active) (db_dictionary d);
          newRows = newDictionaryRows (map dictKey dictionaryRows) ownerId nowIso tags;
          inserted =
            (if length newRows > 0
             then (case fault DictionaryInsert of
                     Some e \<Rightarrow> (Some e, d)
                   | None \<Rightarrow>
                       touchDictionaryMergeState fault
                         (d\<lparr> db_dictionary := insertDictionaryRows (db_dictionary d) newRows \<rparr>)
                         ownerId nowIso)
             else (None, d))
      in case inserted of
           (Some e, d1) \<Rightarrow> (Inl e, d1)
         | (None, d1) \<Rightarrow>
             (case replaceAggregates (fault AggDelete) (fault AggInsert) d1 ownerId assignmentId
                     (aggregateRows ownerId assignmentId nowIso TAG_MODEL TAG_PROMPT_VERSION tags) of
                (Some e, d2) \<Rightarrow> (Inl e, d2)
              | (None, d2) \<Rightarrow>
                  (case finalizeAssignmentTagState fault d2 ownerId assignmentId nowIso sampleCount
                          TAG_MODEL TAG_PROMPT_VERSION of
                     (Some e, d3) \<Rightarrow> (Inl e, d3)
                   | (None, d3) \<Rightarrow> (Inr (RunReady, sampleCount), d3))))"

definition runAggregation ::
  "faults \<Rightarrow> (string + raw_tag list) \<Rightarrow> int \<Rightarrow> db \<Rightarrow> string \<Rightarrow> string \<Rightarrow> run_outcome" where
  "runAggregation fault llm nowIso d ownerId assignmentId =
     (case fault SubmissionsSelect of
        Some e \<Rightarrow> (Inl e, d)
      | None \<Rightarrow>
          (let submissions =
                 filter (\<lambda>row. sub_owner_id row = ownerId \<and> sub_assignment_id row = assignmentId)
                   (db_submissions d);
               graded = gradedSubmissions submissions;
               sampleCount = int (length graded)
           in if sampleCount < int TAG_MIN_SAMPLE_COUNT
              then (case fault InsufficientUpdate of
                      Some e \<Rightarrow> (Inl e, d)
                    | None \<Rightarrow>
                        (Inr (RunInsufficientSamples, sampleCount),
                         updateState d (ownerId, assignmentId)
                           (\<lambda>st. st\<lparr> st_status := InsufficientSamples,
                                     st_sample_count := Some sampleCount,
                                     st_updated_at := Some nowIso \<rparr>)))
              else if length (issueStats graded) = 0
              then (case finalizeAssignmentTagState fault
                           (deleteAggregates (fault EmptyAggDelete) d ownerId assignmentId)
                           ownerId assignmentId nowIso sampleCount TAG_MODEL TAG_PROMPT_VERSION of
                      (Some e, d2) \<Rightarrow> (Inl e, d2)
                    | (None, d2) \<Rightarrow> (Inr (RunReady, sampleCount), d2))
              else (case fault DictionarySelect of
                      Some e \<Rightarrow> (Inl e, d)
                    | None \<Rightarrow>
                        (case llm of
                           Inl e \<Rightarrow> (Inl e, d)
                         | Inr rawTags \<Rightarrow>
                             (let tags = normalizedTags sampleCount rawTags in
                              if length tags = 0 then (Inl ''Gemini tag output invalid'', d)
                              else writeTags fault nowIso d ownerId assignmentId sampleCount tags)))))"

definition aggregateAssignmentTags ::
  "faults \<Rightarrow> (string + raw_tag list) \<Rightarrow> int \<Rightarrow> db \<Rightarrow> tag_state \<Rightarrow> run_outcome" where
  "aggregateAssignmentTags fault llm nowIso d stateRow =
     (let ownerId = st_owner_id stateRow; assignmentId = st_assignment_id stateRow in
      if ownerId = [] then (Inl ''Missing owner_id for assignment tag aggregation'', d)
      else case fault AssignmentSelect of
        Some e \<Rightarrow> (Inl e, d)
      | None \<Rightarrow>
          if st_manual_locked stateRow
          then (case fault LockedUpdate of
                  Some e \<Rightarrow> (Inl e, d)
                | None \<Rightarrow>
                    (Inr (RunLocked, (case st_sample_count stateRow of Some n \<Rightarrow> n | None \<Rightarrow> 0)),
                     updateState d (ownerId, assignmentId)
                       (\<lambda>st. st\<lparr> st_status := Ready, st_dirty := False,
                                 st_updated_at := Some nowIso \<rparr>)))
          else (case fault RunningUpdate of
                  Some e \<Rightarrow> (Inl e, d)
                | None \<Rightarrow>
                    runAggregation fault llm nowIso
                      (updateState d (ownerId, assignmentId)
                         (\<lambda>st. st\<lparr> st_status := Running, st_updated_at := Some nowIso \<rparr>))
                      ownerId assignmentId))"

text \<open>
  The body of the loop over \<^verbatim>\<open>dueStates\<close> in \<^verbatim>\<open>handleAggregateTags\<close>: an error of the
  run is caught and the state is marked failed (the result of that update is not
  inspected).
\<close>

definition sweepStep ::
  "faults \<Rightarrow> (string + raw_tag list) \<Rightarrow> int \<Rightarrow> db \<Rightarrow> tag_state \<Rightarrow> run_outcome" where
  "sweepStep fault llm nowIso d stateRow =
     (case aggregateAssignmentTags fault llm nowIso d stateRow of
        (Inr r, d1) \<Rightarrow> (Inr r, d1)
      | (Inl e, d1) \<Rightarrow>
          (Inl e,
           (case fault FailedUpdate of
              Some _ \<Rightarrow> d1
            | None \<Rightarrow>
                updateState d1 (st_owner_id stateRow, st_assignment_id stateRow)
                  (\<lambda>st. st\<lparr> st_status := Failed, st_updated_at := Some nowIso \<rparr>))))"

section \<open>The manual override\<close>

text \<open>
  The branch \<^verbatim>\<open>intent === 'override'\<close> of \<^verbatim>\<open>handleTags\<close>. Of the payload the code
  reads \<^verbatim>\<open>ownerId\<close> and \<^verbatim>\<open>assignmentId\<close> when they are strings, \<^verbatim>\<open>tags\<close> when
  it is an array, and the two flags \<^verbatim>\<open>manualLocked\<close> and \<^verbatim>\<open>locked\<close>. In a tag of
  the payload \<open>rt_count\<close> stands for
  \<^verbatim>\<open>Number.parseInt(String(tag?.count ?? tag?.value ?? 0), 10)\<close>.
\<close>

datatype param = PBool bool | PString string | POther

definition parseBooleanParam :: "param option \<Rightarrow> bool \<Rightarrow> bool" where
  "parseBooleanParam v fallback =
     (case v of
        Some (PBool b) \<Rightarrow> b
      | Some (PString str) \<Rightarrow>
          (let normalized = toLowerCase (trim str) in
           if normalized = ''1'' \<or> normalized = ''true'' then True
           else if normalized = ''0'' \<or> normalized = ''false'' then False
           else fallback)
      | _ \<Rightarrow> fallback)"

record override_payload =
  ov_ownerId :: "string option"
  ov_assignmentId :: "string option"
  ov_tags :: "raw_tag list option"
  ov_manualLocked :: "param option"
  ov_locked :: "param option"

datatype response = Ok200 | Failure nat string

definition normalizeOverrideTag :: "raw_tag \<Rightarrow> norm_tag option" where
  "normalizeOverrideTag tag =
     (let label = tagLabelOf tag in
      if label = [] then None
      else case rt_count tag of
        None \<Rightarrow> None
      | Some cnt \<Rightarrow>
          if cnt \<le> 0 then None
          else Some \<lparr> nt_label = label, nt_count = cnt, nt_examples = tagExamplesOf tag \<rparr>)"

definition overrideTags :: "override_payload \<Rightarrow> norm_tag list" where
  "overrideTags payload =
     List.map_filter normalizeOverrideTag (case ov_tags payload of Some ts \<Rightarrow> ts | None \<Rightarrow> [])"

definition overrideLocked :: "override_payload \<Rightarrow> bool" where
  "overrideLocked payload =
     parseBooleanParam
       (case ov_manualLocked payload of Some v \<Rightarrow> Some v | None \<Rightarrow> ov_locked payload) True"

text \<open>
  The upsert of \<^verbatim>\<open>stateUpdate\<close>: \<^verbatim>\<open>next_run_at\<close> is \<^verbatim>\<open>null\<close> for a locked state and
  left out otherwise.
\<close>

definition overrideStateRow ::
  "string \<Rightarrow> string \<Rightarrow> int \<Rightarrow> int option \<Rightarrow> bool \<Rightarrow> tag_state option \<Rightarrow> tag_state" where
  "overrideStateRow ownerId assignmentId nowIso sampleCount manualLocked existing =
     (let stored = (case existing of Some e \<Rightarrow> e | None \<Rightarrow> newStateRow ownerId assignmentId)
      in stored\<lparr>
           st_owner_id := ownerId,
           st_assignment_id := assignmentId,
           st_status := Ready,
           st_sample_count := sampleCount,
           st_last_generated_at := Some nowIso,
           st_manual_locked := manualLocked,
           st_dirty := False,
           st_model := Some ''manual'',
           st_prompt_version := Some ''manual'',
           st_updated_at := Some nowIso,
           st_next_run_at := (if manualLocked then None else st_next_run_at stored) \<rparr>)"

text \<open>
  The message of the second rejection is a Chinese sentence in the source (at least one
  tag is required); it is written in English here. The refresh of the domain aggregates
  before the final response is caught and does not appear.
\<close>

definition handleOverride :: "faults \<Rightarrow> int \<Rightarrow> db \<Rightarrow> override_payload \<Rightarrow> response \<times> db" where
  "handleOverride fault nowIso d payload =
     (let ownerIdValue = (case ov_ownerId payload of Some v \<Rightarrow> trim v | None \<Rightarrow> []);
          assignmentIdValue = (case ov_assignmentId payload of Some v \<Rightarrow> trim v | None \<Rightarrow> [])
      in if ownerIdValue = [] \<or> assignmentIdValue = []
         then (Failure 400 ''Missing ownerId or assignmentId'', d)
         else (let tags = overrideTags payload in
           if length tags = 0 then (Failure 400 ''at least one tag is required'', d)
           else (let manualLocked = overrideLocked payload;
                     stateRow = (case fault OvStateSelect of
                                   Some _ \<Rightarrow> None
                                 | None \<Rightarrow> db_states d (ownerIdValue, assignmentIdValue));
                     sampleCount = (case stateRow of Some r \<Rightarrow> st_sample_count r | None \<Rightarrow> None)
                 in case fault OvDictionarySelect of
                      Some e \<Rightarrow> (Failure 500 e, d)
                    | None \<Rightarrow>
                   (let dictionaryRows = filter (\<lambda>row. de_owner_id row = ownerIdValue) (db_dictionary d);
                        newRows = newDictionaryRows (map dictKey dictionaryRows) ownerIdValue nowIso tags;
                        inserted =
                          (if length newRows > 0
                           then (case fault OvDictionaryInsert of
                                   Some e \<Rightarrow> (Some e, d)
                                 | None \<Rightarrow>
                                     (None, d\<lparr> db_dictionary :=
                                                insertDictionaryRows (db_dictionary d) newRows \<rparr>))
                           else (None, d))
                    in case inserted of
                         (Some e, d1) \<Rightarrow> (Failure 500 e, d1)
                       | (None, d1) \<Rightarrow>
                           (case replaceAggregates (fault OvAggDelete) (fault OvAggInsert) d1
                                   ownerIdValue assignmentIdValue
                                   (aggregateRows ownerIdValue assignmentIdValue nowIso
                                      ''manual'' ''manual'' tags) of
                              (Some e, d2) \<Rightarrow> (Failure 500 e, d2)
                            | (None, d2) \<Rightarrow>
                                (case fault OvStateUpsert of
                                   Some e \<Rightarrow> (Failure 500 e, d2)
                                 | None \<Rightarrow>
                                     (Ok200,
                                      d2\<lparr> db_states := (db_states d2)
                                            ((ownerIdValue, assignmentIdValue) \<mapsto>
                                               overrideStateRow ownerIdValue assignmentIdValue nowIso
                                                 sampleCount manualLocked
                                                 (db_states d2 (ownerIdValue, assignmentIdValue))) \<rparr>)))))))"

section \<open>The grading sync\<close>

text \<open>
  The POST branch of \<^verbatim>\<open>handleSync\<close> from the upsert of the submissions on. What comes
  before (the deletions and the upserts of classrooms, students and assignments, which
  write other tables) is one fallible step, and so is the upsert of the folders after it.
  \<open>submissionRows\<close> are the rows \<^verbatim>\<open>buildUpsertRows\<close> returned; a column that
  \<^verbatim>\<open>compactObject\<close> dropped is \<open>None\<close> and keeps its stored value.
\<close>

record sync_row =
  sy_id :: string
  sy_assignment_id :: string
  sy_student_id :: string
  sy_status :: "string option"
  sy_grading_result :: "grading_raw option"

definition applySyncRow :: "string \<Rightarrow> sync_row \<Rightarrow> submission \<Rightarrow> submission" where
  "applySyncRow userId row stored =
     stored\<lparr> sub_owner_id := userId,
              sub_assignment_id := sy_assignment_id row,
              sub_student_id := Some (sy_student_id row),
              sub_status := (case sy_status row of Some v \<Rightarrow> Some v | None \<Rightarrow> sub_status stored),
              sub_grading_result := (case sy_grading_result row of
                                       Some v \<Rightarrow> v | None \<Rightarrow> sub_grading_result stored) \<rparr>"

definition upsertSubmission :: "string \<Rightarrow> submission list \<Rightarrow> sync_row \<Rightarrow> submission list" where
  "upsertSubmission userId table row =
     (if sy_id row \<in> sub_id ` set table
      then map (\<lambda>stored. if sub_id stored = sy_id row then applySyncRow userId row stored else stored) table
      else table @ [applySyncRow userId row
                      \<lparr> sub_id = sy_id row, sub_owner_id = userId,
                        sub_assignment_id = sy_assignment_id row, sub_student_id = None,
                        sub_grading_result = GrNull, sub_status = None \<rparr>])"

definition touchedAssignments :: "sync_row list \<Rightarrow> string list" where
  "touchedAssignments submissionRows =
     uniqFirst (map sy_assignment_id
       (filter (\<lambda>row. sy_grading_result row \<noteq> None \<or> sy_status row = Some ''graded'')
          (filter (\<lambda>row. sy_assignment_id row \<noteq> []) submissionRows)))"

definition handleSyncPost ::
  "faults \<Rightarrow> db \<Rightarrow> int \<Rightarrow> string \<Rightarrow> sync_row list \<Rightarrow> response \<times> db" where
  "handleSyncPost fault d now userId submissionRows =
     (case fault SyncEarlierSteps of
        Some e \<Rightarrow> (Failure 500 e, d)
      | None \<Rightarrow>
          (case (if length submissionRows > 0
                 then (case fault SyncSubmissionsUpsert of
                         Some e \<Rightarrow> (Some e, d)
                       | None \<Rightarrow>
                           (None, d\<lparr> db_submissions :=
                                      foldl (upsertSubmission userId) (db_submissions d) submissionRows \<rparr>))
                 else (None, d)) of
             (Some e, d1) \<Rightarrow> (Failure 500 e, d1)
           | (None, d1) \<Rightarrow>
               (case (if length (touchedAssignments submissionRows) > 0
                      then touchAssignmentTagStates fault d1 now userId
                             (touchedAssignments submissionRows)
                      else (None, d1)) of
                  (Some e, d2) \<Rightarrow> (Failure 500 e, d2)
                | (None, d2) \<Rightarrow>
                    (case fault SyncFoldersStep of
                       Some e \<Rightarrow> (Failure 500 e, d2)
                     | None \<Rightarrow> (Ok200, d2)))))"

section \<open>The dictionary merge\<close>

text \<open>
  An element of the \<^verbatim>\<open>groups\<close> array of the model's answer: \<^verbatim>\<open>canonical\<close> when it is
  a string, \<^verbatim>\<open>members\<close> when it is an array (an element that is not a string is
  \<open>None\<close>).
\<close>

record raw_group =
  rg_canonical :: "string option"
  rg_members :: "string option list option"

record merge_group =
  mg_canonical :: string
  mg_members :: "string list"

definition normalizeGroup :: "raw_group \<Rightarrow> merge_group option" where
  "normalizeGroup g =
     (let canonical = (case rg_canonical g of Some c \<Rightarrow> trim c | None \<Rightarrow> []);
          members = (case rg_members g of
                       Some items \<Rightarrow>
                         filter (\<lambda>item. length item > 0)
                           (map (\<lambda>item. case item of Some m \<Rightarrow> trim m | None \<Rightarrow> []) items)
                     | None \<Rightarrow> [])
      in if canonical = [] \<or> length members = 0 then None
         else (let members1 =
                     (if \<not> list_ex (\<lambda>item. normalizeTagLabel item = normalizeTagLabel canonical) members
                      then canonical # members else members);
                   uniqueMembers = uniqFirst members1
               in if length uniqueMembers < 2 then None
                  else Some \<lparr> mg_canonical = canonical, mg_members = uniqueMembers \<rparr>))"

text \<open>
  The variables of the loop over the groups: the dictionary table (the loop inserts
  canonical entries), \<^verbatim>\<open>idByNormalized\<close> (of the row it holds only the identifier is
  read), \<^verbatim>\<open>canonicalIds\<close>, \<^verbatim>\<open>mergeUpdates\<close> and \<^verbatim>\<open>mergedMemberIds\<close>.
\<close>

record merge_acc =
  ma_dict :: "dict_entry list"
  ma_idByNormalized :: "string \<rightharpoonup> nat"
  ma_canonicalIds :: "nat list"
  ma_mergeUpdates :: "(nat \<times> nat) list"
  ma_mergedMemberIds :: "nat list"

definition indexActiveRows :: "dict_entry list \<Rightarrow> (string \<rightharpoonup> nat)" where
  "indexActiveRows activeRows =
     foldl (\<lambda>m row. if dictKey row = [] then m else m(dictKey row \<mapsto> de_id row)) Map.empty activeRows"

definition memberStep :: "string \<Rightarrow> nat \<Rightarrow> merge_acc \<Rightarrow> string \<Rightarrow> merge_acc" where
  "memberStep canonicalNormalized canonicalId acc member =
     (let memberNormalized = normalizeTagLabel member in
      if memberNormalized = [] \<or> memberNormalized = canonicalNormalized then acc
      else case ma_idByNormalized acc memberNormalized of
        None \<Rightarrow> acc
      | Some memberId \<Rightarrow>
          if memberId \<in> set (ma_mergedMemberIds acc) then acc
          else acc\<lparr> ma_mergedMemberIds := setAdd memberId (ma_mergedMemberIds acc),
                    ma_mergeUpdates := ma_mergeUpdates acc @ [(memberId, canonicalId)] \<rparr>)"

definition groupStep ::
  "faults \<Rightarrow> string \<Rightarrow> int \<Rightarrow> merge_acc \<Rightarrow> merge_group \<Rightarrow> string option \<times> merge_acc" where
  "groupStep fault ownerId nowIso acc g =
     (let canonicalNormalized = normalizeTagLabel (mg_canonical g) in
      if canonicalNormalized = [] then (None, acc)
      else (case (case ma_idByNormalized acc canonicalNormalized of
                    Some cid \<Rightarrow> (None, cid, acc)
                  | None \<Rightarrow>
                      (case fault MgCanonicalInsert of
                         Some e \<Rightarrow> (Some e, 0, acc)
                       | None \<Rightarrow>
                           (None, nextId (ma_dict acc),
                            acc\<lparr> ma_dict := insertDictionaryRows (ma_dict acc)
                                    [\<lparr> di_owner_id = ownerId, di_label = mg_canonical g,
                                       di_normalized_label = canonicalNormalized,
                                       di_updated_at = nowIso \<rparr>],
                                  ma_idByNormalized := (ma_idByNormalized acc)
                                    (canonicalNormalized \<mapsto> nextId (ma_dict acc)) \<rparr>))) of
              (Some e, _, acc1) \<Rightarrow> (Some e, acc1)
            | (None, canonicalId, acc1) \<Rightarrow>
                (None, foldl (memberStep canonicalNormalized canonicalId)
                         (acc1\<lparr> ma_canonicalIds := setAdd canonicalId (ma_canonicalIds acc1) \<rparr>)
                         (mg_members g))))"

fun groupLoop ::
  "faults \<Rightarrow> string \<Rightarrow> int \<Rightarrow> merge_acc \<Rightarrow> merge_group list \<Rightarrow> string option \<times> merge_acc" where
  "groupLoop fault ownerId nowIso acc [] = (None, acc)"
| "groupLoop fault ownerId nowIso acc (g # gs) =
     (case groupStep fault ownerId nowIso acc g of
        (Some e, acc1) \<Rightarrow> (Some e, acc1)
      | (None, acc1) \<Rightarrow> groupLoop fault ownerId nowIso acc1 gs)"

text \<open>
  The two writes after the loop: the update of the canonical entries and the upsert of
  the merged ones (every identifier it names is the identifier of a stored entry, so it
  changes that entry).
\<close>

definition resetCanonicals :: "nat list \<Rightarrow> int \<Rightarrow> dict_entry list \<Rightarrow> dict_entry list" where
  "resetCanonicals canonicalIds nowIso dict =
     map (\<lambda>e. if de_id e \<in> set canonicalIds
               then e\<lparr> de_status := Active, de_merged_to_tag_id := None, de_updated_at := nowIso \<rparr>
               else e) dict"

definition applyMergeUpdates :: "(nat \<times> nat) list \<Rightarrow> int \<Rightarrow> dict_entry list \<Rightarrow> dict_entry list" where
  "applyMergeUpdates mergeUpdates nowIso dict =
     foldl (\<lambda>table item.
              map (\<lambda>e. if de_id e = fst item
                        then e\<lparr> de_status := Merged, de_merged_to_tag_id := Some (snd item),
                                de_updated_at := nowIso \<rparr>
                        else e) table)
       dict mergeUpdates"

datatype merge_result =
    MergeSkipped string nat
  | MergeNoGroups nat
  | MergeDone nat nat nat

text \<open>
  \<^verbatim>\<open>mergeDictionaryForOwner\<close>. The answer of the text-generation call is a parameter, as
  in the clustering run; \<^verbatim>\<open>updateAbilityMappingForOwner\<close>, which reads the dictionary
  and writes the ability tables, is one fallible step.
\<close>

definition mergeDictionaryForOwner ::
  "faults \<Rightarrow> (string + raw_group list) \<Rightarrow> int \<Rightarrow> db \<Rightarrow> string \<Rightarrow> (string + merge_result) \<times> db" where
  "mergeDictionaryForOwner fault llm nowIso d ownerId =
     (if ownerId = [] then (Inl ''Missing owner_id for dictionary merge'', d)
      else case fault MgDictionarySelect of
        Some e \<Rightarrow> (Inl e, d)
      | None \<Rightarrow>
         (let activeRows =
                filter (\<lambda>row. de_owner_id row = ownerId \<and> de_status row = Active) (db_dictionary d)
          in if length activeRows < DICT_MERGE_MIN_LABELS
             then (Inr (MergeSkipped ''insufficient_labels'' (length activeRows)), d)
             else if length activeRows > DICT_MERGE_MAX_LABELS
             then (Inr (MergeSkipped ''too_many_labels'' (length activeRows)), d)
             else (case fault MgUsageSelect of
                Some e \<Rightarrow> (Inl e, d)
              | None \<Rightarrow>
                 (case llm of
                    Inl e \<Rightarrow> (Inl e, d)
                  | Inr rawGroups \<Rightarrow>
                     (let groups = List.map_filter normalizeGroup rawGroups in
                      if length groups = 0
                      then (case fault MgAbilityMapping of
                              Some e \<Rightarrow> (Inl e, d)
                            | None \<Rightarrow> (Inr (MergeNoGroups (length activeRows)), d))
                      else (case groupLoop fault ownerId nowIso
                                   \<lparr> ma_dict = db_dictionary d,
                                     ma_idByNormalized = indexActiveRows activeRows,
                                     ma_canonicalIds = [], ma_mergeUpdates = [],
                                     ma_mergedMemberIds = [] \<rparr> groups of
                              (Some e, acc) \<Rightarrow> (Inl e, d\<lparr> db_dictionary := ma_dict acc \<rparr>)
                            | (None, acc) \<Rightarrow>
                               (case (if length (ma_canonicalIds acc) > 0
                                      then (case fault MgCanonicalUpdate of
                                              Some e \<Rightarrow> (Some e, ma_dict acc)
                                            | None \<Rightarrow>
                                                (None, resetCanonicals (ma_canonicalIds acc) nowIso
                                                         (ma_dict acc)))
                                      else (None, ma_dict acc)) of
                                  (Some e, dict1) \<Rightarrow> (Inl e, d\<lparr> db_dictionary := dict1 \<rparr>)
                                | (None, dict1) \<Rightarrow>
                                   (case (if length (ma_mergeUpdates acc) > 0
                                          then (case fault MgMergeUpsert of
                                                  Some e \<Rightarrow> (Some e, dict1)
                                                | None \<Rightarrow>
                                                    (None, applyMergeUpdates (ma_mergeUpdates acc)
                                                             nowIso dict1))
                                          else (None, dict1)) of
                                      (Some e, dict2) \<Rightarrow> (Inl e, d\<lparr> db_dictionary := dict2 \<rparr>)
                                    | (None, dict2) \<Rightarrow>
                                       (case fault MgAbilityMapping of
                                          Some e \<Rightarrow> (Inl e, d\<lparr> db_dictionary := dict2 \<rparr>)
                                        | None \<Rightarrow>
                                            (Inr (MergeDone (length groups)
                                                    (length (ma_mergeUpdates acc))
                                                    (length (ma_canonicalIds acc))),
                                             d\<lparr> db_dictionary := dict2 \<rparr>))))))))))"

text \<open>The two invariants of the dictionary, as decidable predicates on the table.\<close>

definition activeLabelsUnique :: "dict_entry list \<Rightarrow> bool" where
  "activeLabelsUnique dict =
     list_all (\<lambda>owner.
        distinct (map de_normalized_label
          (filter (\<lambda>e. de_owner_id e = owner \<and> de_status e = Active) dict)))
       (map de_owner_id dict)"

definition mergedPointersActive :: "dict_entry list \<Rightarrow> bool" where
  "mergedPointersActive dict =
     list_all (\<lambda>e. list_ex (\<lambda>t. de_merged_to_tag_id e = Some (de_id t) \<and> de_status t = Active) dict)
       (filter (\<lambda>e. de_status e = Merged) dict)"

section \<open>The ability rollup\<close>

text \<open>
  \<^verbatim>\<open>refreshAbilityAggregates\<close>. The column \<^verbatim>\<open>confidence\<close> of a mapping is
  \<^verbatim>\<open>null\<close>, a number, or a value that \<^verbatim>\<open>Number\<close> turns into NaN. Numbers are exact
  rationals here: the rounding of binary floating point is not modelled.
\<close>

datatype confidence = ConfNull | ConfNaN | ConfNumber rat

record ability_mapping =
  am_owner_id :: string
  am_tag_id :: nat
  am_ability_id :: nat
  am_confidence :: confidence

record assignment_row =
  as_id :: string
  as_owner_id :: string
  as_domain :: "string option"

record ability_agg =
  aa_owner_id :: string
  aa_ability_id :: nat
  aa_total_count :: int
  aa_assignment_count :: nat
  aa_domain_count :: nat
  aa_generated_at :: int

record ability_tables =
  ab_mappings :: "ability_mapping list"
  ab_tags :: "dict_entry list"
  ab_aggregates :: "agg_row list"
  ab_assignments :: "assignment_row list"
  ab_ability_aggregates :: "ability_agg list"

text \<open>\<^verbatim>\<open>Number(mapping.confidence)\<close>, with \<open>None\<close> for NaN: \<^verbatim>\<open>Number(null)\<close> is 0.\<close>

definition toNumber :: "confidence \<Rightarrow> rat option" where
  "toNumber c = (case c of ConfNull \<Rightarrow> Some 0 | ConfNaN \<Rightarrow> None | ConfNumber r \<Rightarrow> Some r)"

definition weightOf :: "ability_mapping \<Rightarrow> rat" where
  "weightOf mapping = (case toNumber (am_confidence mapping) of Some c \<Rightarrow> c | None \<Rightarrow> 1)"

text \<open>\<^verbatim>\<open>Math.round\<close>: the nearest integer, a half rounding up.\<close>

definition jsRound :: "rat \<Rightarrow> int" where
  "jsRound x = \<lfloor>x + 1 / 2\<rfloor>"

definition tagLabelById :: "dict_entry list \<Rightarrow> (nat \<rightharpoonup> string)" where
  "tagLabelById tagRows = foldl (\<lambda>m row. m(de_id row \<mapsto> dictKey row)) Map.empty tagRows"

definition abilityByTag :: "dict_entry list \<Rightarrow> ability_mapping list \<Rightarrow> (string \<rightharpoonup> ability_mapping)" where
  "abilityByTag tagRows mappingRows =
     foldl (\<lambda>m row. case tagLabelById tagRows (am_tag_id row) of
                      None \<Rightarrow> m
                    | Some tagNormalized \<Rightarrow> if tagNormalized = [] then m else m(tagNormalized \<mapsto> row))
       Map.empty mappingRows"

definition domainByAssignment :: "assignment_row list \<Rightarrow> (string \<rightharpoonup> string)" where
  "domainByAssignment assignmentRows =
     foldl (\<lambda>m row. m(as_id row \<mapsto>
              (case as_domain row of Some dm \<Rightarrow> if dm \<noteq> [] then dm else ''uncategorized''
                                   | None \<Rightarrow> ''uncategorized'')))
       Map.empty assignmentRows"

definition domainOf :: "(string \<rightharpoonup> string) \<Rightarrow> string \<Rightarrow> string" where
  "domainOf domains assignmentId =
     (case domains assignmentId of
        Some dm \<Rightarrow> if dm \<noteq> [] then dm else ''uncategorized''
      | None \<Rightarrow> ''uncategorized'')"

text \<open>
  \<^verbatim>\<open>abilityStats\<close>: a Map from ability to its bucket (total, assignments, domains),
  in insertion order. \<open>statStep\<close> is the callback of \<^verbatim>\<open>aggRows.forEach\<close> and
  \<open>addToBucket\<close> the three updates it makes to the bucket.
\<close>

type_synonym ability_stats = "(nat \<times> rat \<times> string list \<times> string list) list"

definition mappingOfRow :: "(string \<rightharpoonup> ability_mapping) \<Rightarrow> agg_row \<Rightarrow> ability_mapping option" where
  "mappingOfRow byTag row =
     (let normalized = normalizeTagLabel (ar_tag_label row) in
      if normalized = [] then None else byTag normalized)"

definition addToBucket ::
  "(string \<rightharpoonup> string) \<Rightarrow> ability_mapping \<Rightarrow> agg_row \<Rightarrow> rat \<times> string list \<times> string list
     \<Rightarrow> rat \<times> string list \<times> string list" where
  "addToBucket domains mapping row bucket =
     (case bucket of
        (tot, assignments, doms) \<Rightarrow>
          (tot + rat_of_int (ar_tag_count row) * weightOf mapping,
           (if ar_assignment_id row \<noteq> [] then setAdd (ar_assignment_id row) assignments
            else assignments),
           (if ar_assignment_id row \<noteq> []
            then setAdd (domainOf domains (ar_assignment_id row)) doms else doms)))"

definition statStep ::
  "(string \<rightharpoonup> ability_mapping) \<Rightarrow> (string \<rightharpoonup> string) \<Rightarrow> ability_stats \<Rightarrow> agg_row \<Rightarrow> ability_stats" where
  "statStep byTag domains stats row =
     (case mappingOfRow byTag row of
        None \<Rightarrow> stats
      | Some mapping \<Rightarrow>
          (let abilityId = am_ability_id mapping;
               stats1 = (if abilityId \<in> fst ` set stats then stats else stats @ [(abilityId, 0, [], [])])
           in map (\<lambda>(k, bucket).
                     if k = abilityId then (k, addToBucket domains mapping row bucket)
                     else (k, bucket)) stats1))"

definition abilityRows :: "string \<Rightarrow> int \<Rightarrow> ability_stats \<Rightarrow> ability_agg list" where
  "abilityRows ownerId nowIso stats =
     map (\<lambda>(abilityId, total, assignments, doms).
            \<lparr> aa_owner_id = ownerId, aa_ability_id = abilityId,
              aa_total_count = max 1 (jsRound total),
              aa_assignment_count = length assignments,
              aa_domain_count = length doms,
              aa_generated_at = nowIso \<rparr>) stats"

definition abilityStatsOf :: "ability_tables \<Rightarrow> string \<Rightarrow> ability_stats" where
  "abilityStatsOf t ownerId =
     (let mappingRows = filter (\<lambda>row. am_owner_id row = ownerId) (ab_mappings t);
          tagRows = filter (\<lambda>row. de_owner_id row = ownerId) (ab_tags t);
          aggRows = filter (\<lambda>row. ar_owner_id row = ownerId) (ab_aggregates t);
          assignmentIds = uniqFirst (filter (\<lambda>a. a \<noteq> []) (map ar_assignment_id aggRows));
          assignmentRows = filter (\<lambda>row. as_owner_id row = ownerId \<and> as_id row \<in> set assignmentIds)
                             (ab_assignments t)
      in foldl (statStep (abilityByTag tagRows mappingRows) (domainByAssignment assignmentRows))
           [] aggRows)"

definition refreshAbilityAggregates ::
  "faults \<Rightarrow> ability_tables \<Rightarrow> string \<Rightarrow> int \<Rightarrow> string option \<times> ability_tables" where
  "refreshAbilityAggregates fault t ownerId nowIso =
     (if ownerId = [] then (None, t)
      else case fault AbMappingSelect of Some e \<Rightarrow> (Some e, t) | None \<Rightarrow>
          (case fault AbTagSelect of Some e \<Rightarrow> (Some e, t) | None \<Rightarrow>
          (case fault AbAggSelect of Some e \<Rightarrow> (Some e, t) | None \<Rightarrow>
          (case fault AbAssignmentSelect of Some e \<Rightarrow> (Some e, t) | None \<Rightarrow>
             (let stats = abilityStatsOf t ownerId;
                  t1 = (case fault AbDelete of
                          Some _ \<Rightarrow> t
                        | None \<Rightarrow> t\<lparr> ab_ability_aggregates :=
                                       filter (\<lambda>r. aa_owner_id r \<noteq> ownerId) (ab_ability_aggregates t) \<rparr>)
              in if length stats = 0 then (None, t1)
                 else (case fault AbInsert of
                         Some e \<Rightarrow> (Some e, t1)
                       | None \<Rightarrow>
                           (None, t1\<lparr> ab_ability_aggregates :=
                                        ab_ability_aggregates t1 @ abilityRows ownerId nowIso stats \<rparr>)))))))"

section \<open>Example data\<close>

text \<open>Concrete submissions, tags and tables on which the properties below are exercised.\<close>

definition exampleSubmission :: "string \<Rightarrow> string \<Rightarrow> string list \<Rightarrow> submission" where
  "exampleSubmission i student weaknesses =
     \<lparr> sub_id = i, sub_owner_id = ''o'', sub_assignment_id = ''a'', sub_student_id = Some student,
       sub_grading_result = GrObject \<lparr> g_mistakes = None, g_weaknesses = Some weaknesses \<rparr>,
       sub_status = Some ''graded'' \<rparr>"

definition exampleTag :: "string \<Rightarrow> int \<Rightarrow> raw_tag" where
  "exampleTag l c = \<lparr> rt_label = Some l, rt_tag = None, rt_count = Some c, rt_examples = None \<rparr>"

text \<open>
  A sequence of graded-submission events on one assignment, each touching the state the
  previous one left, and the condition that a stored state, if any, is not manually locked.
\<close>

definition touchEvents :: "string \<Rightarrow> string \<Rightarrow> tag_state option \<Rightarrow> int list \<Rightarrow> tag_state option" where
  "touchEvents ownerId assignmentId existing instants =
     foldl (\<lambda>st t. Some (touchRow t ownerId assignmentId st)) existing instants"

definition unlocked :: "tag_state option \<Rightarrow> bool" where
  "unlocked existing = (case existing of Some e \<Rightarrow> \<not> st_manual_locked e | None \<Rightarrow> True)"

definition emptyDb :: db where
  "emptyDb = \<lparr> db_submissions = [], db_states = Map.empty, db_dictionary = [],
               db_aggregates = [], db_merge_state = Map.empty \<rparr>"

definition exampleUnlockedOverride :: override_payload where
  "exampleUnlockedOverride =
     \<lparr> ov_ownerId = Some ''o'', ov_assignmentId = Some ''a'',
       ov_tags = Some [exampleTag ''units'' 3], ov_manualLocked = Some (PBool False),
       ov_locked = None \<rparr>"

definition exampleRunningNoWindow :: tag_state where
  "exampleRunningNoWindow =
     (overrideStateRow ''o'' ''a'' 0 None False None)\<lparr> st_status := Running, st_updated_at := Some 1 \<rparr>"

definition exampleDirtyRunning :: tag_state where
  "exampleDirtyRunning =
     (newStateRow ''o'' ''a'')\<lparr> st_status := Running, st_dirty := True,
        st_window_started_at := Some 0, st_last_event_at := Some 1700000,
        st_next_run_at := Some 2000000 \<rparr>"

definition exampleOldRow :: agg_row where
  "exampleOldRow =
     \<lparr> ar_owner_id = ''o'', ar_assignment_id = ''a'', ar_tag_label = ''units'', ar_tag_count = 4,
       ar_examples = None, ar_generated_at = 0, ar_model = ''m'', ar_prompt_version = ''v'' \<rparr>"

definition exampleClusterDb :: db where
  "exampleClusterDb =
     \<lparr> db_submissions =
         [exampleSubmission ''1'' ''s1'' [''x''], exampleSubmission ''2'' ''s2'' [''x''],
          exampleSubmission ''3'' ''s3'' [''x''], exampleSubmission ''4'' ''s4'' [''y''],
          exampleSubmission ''5'' ''s5'' [''y'']],
       db_states = [(''o'', ''a'') \<mapsto> touchRow 0 ''o'' ''a'' None],
       db_dictionary = [], db_aggregates = [exampleOldRow], db_merge_state = Map.empty \<rparr>"

text \<open>
  Submissions that are not graded (no grading result, and a status other than graded), and
  the tables of the example with three of them beside the five graded ones.
\<close>

definition exampleUngraded :: "string \<Rightarrow> string \<Rightarrow> submission" where
  "exampleUngraded i student =
     \<lparr> sub_id = i, sub_owner_id = ''o'', sub_assignment_id = ''a'', sub_student_id = Some student,
       sub_grading_result = GrNull, sub_status = Some ''synced'' \<rparr>"

definition exampleMixedDb :: db where
  "exampleMixedDb =
     exampleClusterDb\<lparr> db_submissions :=
       [exampleUngraded ''6'' ''s6''] @ db_submissions exampleClusterDb
       @ [exampleUngraded ''7'' ''s7'', exampleUngraded ''8'' ''s8''] \<rparr>"

text \<open>The tables of the example with an aggregate row of another assignment.\<close>

definition exampleTwoScopeDb :: db where
  "exampleTwoScopeDb =
     exampleClusterDb\<lparr> db_aggregates :=
       [exampleOldRow\<lparr> ar_assignment_id := ''b'' \<rparr>, exampleOldRow] \<rparr>"

text \<open>The fault assignment in which one call fails and every other call succeeds.\<close>

definition faultAt :: "call \<Rightarrow> string \<Rightarrow> faults" where
  "faultAt c e = noFaults(c := Some e)"

definition exampleSyncRow :: sync_row where
  "exampleSyncRow =
     \<lparr> sy_id = ''s1'', sy_assignment_id = ''a'', sy_student_id = ''st'',
       sy_status = Some ''graded'', sy_grading_result = None \<rparr>"

definition exampleDictEntry :: "nat \<Rightarrow> string \<Rightarrow> dict_entry" where
  "exampleDictEntry i l =
     \<lparr> de_id = i, de_owner_id = ''o'', de_label = l, de_normalized_label = normalizeTagLabel l,
       de_status = Active, de_merged_to_tag_id = None, de_updated_at = 0 \<rparr>"

definition exampleMergeDb :: db where
  "exampleMergeDb =
     emptyDb\<lparr> db_dictionary :=
       [exampleDictEntry 1 ''A'', exampleDictEntry 2 ''B'', exampleDictEntry 3 ''C'',
        exampleDictEntry 4 ''D''] \<rparr>"

definition exampleGroup :: "string \<Rightarrow> string list \<Rightarrow> raw_group" where
  "exampleGroup c ms = \<lparr> rg_canonical = Some c, rg_members = Some (map Some ms) \<rparr>"

definition exampleOverride :: override_payload where
  "exampleOverride =
     \<lparr> ov_ownerId = Some ''o'', ov_assignmentId = Some ''a'',
       ov_tags = Some [exampleTag ''calc error'' 12], ov_manualLocked = None, ov_locked = None \<rparr>"

definition scenarioB :: "submission list" where
  "scenarioB =
     [exampleSubmission ''1'' ''s1'' [''missing units''],
      exampleSubmission ''2'' ''s2'' [''missing  units''],
      exampleSubmission ''3'' ''s3'' [''sign error''],
      exampleSubmission ''4'' ''s4'' [''wrong formula''],
      exampleSubmission ''5'' ''s5'' [''sign error'', ''sign error''],
      exampleSubmission ''6'' ''s6'' [''sign error'']]"

text \<open>
  Four submissions of three students: the first student has two submissions with the same
  issue, and repeats it within the first.
\<close>

definition exampleRepeats :: "submission list" where
  "exampleRepeats =
     [exampleSubmission ''1'' ''s1'' [''sign error'', ''sign  error''],
      exampleSubmission ''2'' ''s1'' [''sign error''],
      exampleSubmission ''3'' ''s2'' [''missing units'', ''sign error''],
      exampleSubmission ''4'' ''s3'' [''missing units'']]"

text \<open>The bucket an issue has in the issue map: empty when the issue is not a key.\<close>

definition bucketOf :: "issue_map \<Rightarrow> string \<Rightarrow> string list" where
  "bucketOf m k = (case map_of m k of Some b \<Rightarrow> b | None \<Rightarrow> [])"

text \<open>
  The quantities claim C9 speaks of, for one owner and one ability. The mapped ability of
  an aggregate row is looked up as the code does (\<open>abilityByTag\<close> on the normalized
  label). \<open>specWeight\<close> is the weight in the words of the specification: the
  confidence, or 1 when there is none. \<open>weightedTotal\<close> is the sum of
  \<^verbatim>\<open>tag_count\<close> times that weight over the rows mapped to the ability;
  \<open>contributingAssignments\<close> and \<open>contributingDomains\<close> are the assignments of those rows
  and their domains.
\<close>

definition ownerAggRows :: "ability_tables \<Rightarrow> string \<Rightarrow> agg_row list" where
  "ownerAggRows t ownerId = filter (\<lambda>row. ar_owner_id row = ownerId) (ab_aggregates t)"

definition ownerByTag :: "ability_tables \<Rightarrow> string \<Rightarrow> (string \<rightharpoonup> ability_mapping)" where
  "ownerByTag t ownerId =
     abilityByTag (filter (\<lambda>row. de_owner_id row = ownerId) (ab_tags t))
       (filter (\<lambda>row. am_owner_id row = ownerId) (ab_mappings t))"

definition ownerDomains :: "ability_tables \<Rightarrow> string \<Rightarrow> (string \<rightharpoonup> string)" where
  "ownerDomains t ownerId =
     domainByAssignment
       (filter (\<lambda>row. as_owner_id row = ownerId
                  \<and> as_id row \<in> set (uniqFirst (filter (\<lambda>a. a \<noteq> [])
                                      (map ar_assignment_id (ownerAggRows t ownerId)))))
          (ab_assignments t))"

definition contributes :: "(string \<rightharpoonup> ability_mapping) \<Rightarrow> nat \<Rightarrow> agg_row \<Rightarrow> bool" where
  "contributes byTag abilityId row =
     (case mappingOfRow byTag row of Some mapping \<Rightarrow> am_ability_id mapping = abilityId | None \<Rightarrow> False)"

definition specWeight :: "ability_mapping \<Rightarrow> rat" where
  "specWeight mapping = (case am_confidence mapping of ConfNumber c \<Rightarrow> c | _ \<Rightarrow> 1)"

definition weightedTotal :: "ability_tables \<Rightarrow> string \<Rightarrow> nat \<Rightarrow> rat" where
  "weightedTotal t ownerId abilityId =
     sum_list (map (\<lambda>row. case mappingOfRow (ownerByTag t ownerId) row of
                             Some mapping \<Rightarrow> rat_of_int (ar_tag_count row) * specWeight mapping
                           | None \<Rightarrow> 0)
       (filter (contributes (ownerByTag t ownerId) abilityId) (ownerAggRows t ownerId)))"

definition contributingAssignments :: "ability_tables \<Rightarrow> string \<Rightarrow> nat \<Rightarrow> string set" where
  "contributingAssignments t ownerId abilityId =
     {ar_assignment_id row | row. row \<in> set (ownerAggRows t ownerId)
        \<and> contributes (ownerByTag t ownerId) abilityId row \<and> ar_assignment_id row \<noteq> []}"

definition contributingDomains :: "ability_tables \<Rightarrow> string \<Rightarrow> nat \<Rightarrow> string set" where
  "contributingDomains t ownerId abilityId =
     {domainOf (ownerDomains t ownerId) (ar_assignment_id row) | row.
        row \<in> set (ownerAggRows t ownerId)
        \<and> contributes (ownerByTag t ownerId) abilityId row \<and> ar_assignment_id row \<noteq> []}"

text \<open>The components of the bucket an ability has in \<open>abilityStats\<close>.\<close>

definition totalOf :: "ability_stats \<Rightarrow> nat \<Rightarrow> rat" where
  "totalOf stats k = (case map_of stats k of Some (tot, _, _) \<Rightarrow> tot | None \<Rightarrow> 0)"

definition assignmentsOf :: "ability_stats \<Rightarrow> nat \<Rightarrow> string list" where
  "assignmentsOf stats k = (case map_of stats k of Some (_, assignments, _) \<Rightarrow> assignments | None \<Rightarrow> [])"

definition domainsOf :: "ability_stats \<Rightarrow> nat \<Rightarrow> string list" where
  "domainsOf stats k = (case map_of stats k of Some (_, _, doms) \<Rightarrow> doms | None \<Rightarrow> [])"

definition exampleAggRow :: "string \<Rightarrow> string \<Rightarrow> int \<Rightarrow> agg_row" where
  "exampleAggRow a l c =
     \<lparr> ar_owner_id = ''o'', ar_assignment_id = a, ar_tag_label = l, ar_tag_count = c,
       ar_examples = None, ar_generated_at = 0, ar_model = ''m'', ar_prompt_version = ''v'' \<rparr>"

definition exampleAbilityTables :: ability_tables where
  "exampleAbilityTables =
     \<lparr> ab_mappings = [\<lparr> am_owner_id = ''o'', am_tag_id = 1, am_ability_id = 7,
                        am_confidence = ConfNumber (1 / 2) \<rparr>],
       ab_tags = [exampleDictEntry 1 ''A''],
       ab_aggregates = [exampleAggRow ''a1'' ''A'' 3],
       ab_assignments = [],
       ab_ability_aggregates = [] \<rparr>"

definition exampleDuplicateOverride :: override_payload where
  "exampleDuplicateOverride =
     \<lparr> ov_ownerId = Some ''o'', ov_assignmentId = Some ''a'',
       ov_tags = Some [exampleTag ''Sign Error'' 3, exampleTag ''sign error'' 2],
       ov_manualLocked = None, ov_locked = None \<rparr>"

definition exampleChainDb :: db where
  "exampleChainDb =
     emptyDb\<lparr> db_dictionary :=
       [exampleDictEntry 1 ''A'',
        (exampleDictEntry 2 ''B'')\<lparr> de_status := Merged, de_merged_to_tag_id := Some 1 \<rparr>,
        exampleDictEntry 3 ''C'', exampleDictEntry 4 ''D'', exampleDictEntry 5 ''E''] \<rparr>"

section \<open>Properties of the tag ranking\<close>

lemma normalizeTag_count_le:
  "normalizeTag n tag = Some t \<Longrightarrow> nt_count t \<le> n"
  by (auto simp: normalizeTag_def Let_def split: option.splits if_splits)

lemma map_filter_normalizeTag_le:
  "t \<in> set (List.map_filter (normalizeTag n) rawTags) \<Longrightarrow> nt_count t \<le> n"
  by (auto simp: List.map_filter_def dest: normalizeTag_count_le)

lemma normalizedTags_length: "length (normalizedTags n rawTags) \<le> 8"
  by (simp add: normalizedTags_def TAG_LIMIT_def)

lemma normalizedTags_count_le:
  "t \<in> set (normalizedTags n rawTags) \<Longrightarrow> nt_count t \<le> n"
  unfolding normalizedTags_def sortByCountDesc_def
  by (auto dest!: in_set_takeD map_filter_normalizeTag_le)

lemma sorted_take_map: "sorted (map f xs) \<Longrightarrow> sorted (map f (take k xs))"
  by (simp add: take_map[symmetric] sorted_wrt_take)

lemma normalizedTags_sorted:
  "sorted (map (\<lambda>t. - nt_count t) (normalizedTags n rawTags))"
  unfolding normalizedTags_def sortByCountDesc_def
  by (rule sorted_take_map) simp

section \<open>Properties of the debounce state machine\<close>

lemma touchRow_last_event: "st_last_event_at (touchRow now ownerId a existing) = Some now"
  by (simp add: touchRow_def Let_def)

lemma touchRow_next_run:
  "unlocked existing \<Longrightarrow>
   st_next_run_at (touchRow now ownerId a existing) = Some (now + 5 * 60 * 1000)"
  by (cases existing) (simp_all add: touchRow_def Let_def unlocked_def addMinutesIso_def TAG_QUIET_MINUTES_def)

lemma touchRow_window_reset:
  "unlocked existing \<Longrightarrow>
   existing = None \<or> (\<exists>e. existing = Some e \<and>
      (st_status e \<in> {Idle, Ready, Failed, InsufficientSamples} \<or> st_window_started_at e = None)) \<Longrightarrow>
   st_window_started_at (touchRow now ownerId a existing) = Some now"
  by (cases existing) (auto simp: touchRow_def Let_def unlocked_def)

lemma touchRow_window_kept:
  "existing = Some e \<Longrightarrow> \<not> st_manual_locked e \<Longrightarrow> st_status e \<in> {Pending, Running} \<Longrightarrow>
   st_window_started_at e = Some w \<Longrightarrow>
   st_window_started_at (touchRow now ownerId a existing) = Some w"
  by (auto simp: touchRow_def Let_def)

lemma touchRow_status:
  "unlocked existing \<Longrightarrow>
   st_status (touchRow now ownerId a existing) =
     (if (\<exists>e. existing = Some e \<and> st_status e = Running) then Running else Pending)"
  by (cases existing) (auto simp: touchRow_def Let_def unlocked_def)

lemma touchRow_unlocked:
  "unlocked existing \<Longrightarrow> \<not> st_manual_locked (touchRow now ownerId a existing)"
  by (cases existing) (auto simp: touchRow_def Let_def unlocked_def)

lemma isDue_after_touch:
  "unlocked existing \<Longrightarrow>
   isDue t (touchRow now ownerId a existing) \<longleftrightarrow>
     (t \<ge> now + 5 * 60 * 1000 \<or>
      (\<exists>w. st_window_started_at (touchRow now ownerId a existing) = Some w \<and> t - w \<ge> 30 * 60 * 1000))"
  unfolding isDue_def Let_def
  by (simp add: touchRow_last_event touchRow_next_run TAG_QUIET_MINUTES_def TAG_MAX_WAIT_MINUTES_def
      split: option.splits)

lemma isDue_max_wait:
  "st_window_started_at row = Some w \<Longrightarrow> t - w \<ge> 30 * 60 * 1000 \<Longrightarrow> isDue t row"
  by (simp add: isDue_def Let_def TAG_MAX_WAIT_MINUTES_def)

lemma touchEvents_pending:
  "st_status e = Pending \<Longrightarrow> \<not> st_manual_locked e \<Longrightarrow> st_window_started_at e = Some w \<Longrightarrow>
   \<exists>e'. touchEvents ownerId a (Some e) instants = Some e' \<and> st_status e' = Pending
        \<and> \<not> st_manual_locked e' \<and> st_window_started_at e' = Some w"
proof (induction instants arbitrary: e)
  case Nil
  then show ?case by (simp add: touchEvents_def)
next
  case (Cons t instants)
  let ?e1 = "touchRow t ownerId a (Some e)"
  have "st_status ?e1 = Pending" "\<not> st_manual_locked ?e1" "st_window_started_at ?e1 = Some w"
    using Cons.prems by (simp_all add: touchRow_def Let_def)
  from Cons.IH[OF this] show ?case by (simp add: touchEvents_def)
qed

lemma trim_simple [simp]: "trim ''o'' = ''o''" "trim ''a'' = ''a''" "trim ''units'' = ''units''"
  by (simp_all add: trim_def isSpace_def)

lemma exampleRunningNoWindow_reachable:
  "fst (handleOverride noFaults 0 emptyDb exampleUnlockedOverride) = Ok200
   \<and> db_states (snd (handleOverride noFaults 0 emptyDb exampleUnlockedOverride)) (''o'', ''a'')
       = Some (overrideStateRow ''o'' ''a'' 0 None False None)
   \<and> dueStates True 1 (selectStates True [overrideStateRow ''o'' ''a'' 0 None False None])
       = [overrideStateRow ''o'' ''a'' 0 None False None]
   \<and> db_states (updateState (snd (handleOverride noFaults 0 emptyDb exampleUnlockedOverride))
        (''o'', ''a'') (\<lambda>st. st\<lparr> st_status := Running, st_updated_at := Some 1 \<rparr>)) (''o'', ''a'')
       = Some exampleRunningNoWindow"
  by (simp add: handleOverride_def noFaults_def emptyDb_def exampleUnlockedOverride_def
      overrideTags_def normalizeOverrideTag_def tagLabelOf_def tagExamplesOf_def exampleTag_def
      overrideLocked_def parseBooleanParam_def newDictionaryRows_def replaceAggregates_def
      deleteAggregates_def insertAggregates_def otherRows_def aggregateRows_def
      dueStates_def selectStates_def overrideStateRow_def newStateRow_def updateState_def
      exampleRunningNoWindow_def Let_def)

text \<open>
  Claim C2, as stated, fails: a running state that has no window start (reached by an
  unlocked manual override followed by a forced sweep) is not one of the four listed
  statuses, yet an event sets its window start to the instant of the event instead of
  preserving the stored (empty) value.
\<close>

theorem C2_counterexample:
  "unlocked (Some exampleRunningNoWindow)
   \<and> st_status exampleRunningNoWindow = Running
   \<and> st_window_started_at (touchRow 1000 ''o'' ''a'' (Some exampleRunningNoWindow))
       \<noteq> st_window_started_at exampleRunningNoWindow"
  by (simp add: unlocked_def exampleRunningNoWindow_def overrideStateRow_def newStateRow_def
      touchRow_def Let_def)

text \<open>
  Claim C2, amended. For a state that is not manually locked, an event at \<open>now\<close> sets
  \<^verbatim>\<open>last_event_at\<close> to \<open>now\<close> and \<^verbatim>\<open>next_run_at\<close> to \<open>now\<close> plus 5 minutes. The window
  start becomes \<open>now\<close> when there was no row, when the status was idle, ready, failed or
  insufficient samples, or when the stored window start is empty; a pending or running
  state with a window start keeps it. The touched row is due at \<open>t\<close> exactly when \<open>t\<close> has
  reached \<^verbatim>\<open>next_run_at\<close> or the window is 30 minutes old; and however many events follow
  on a pending state, it is selected by the sweep once its window is 30 minutes old.
\<close>

theorem C2_touch_debounce:
  assumes "unlocked existing"
  shows "st_last_event_at (touchRow now ownerId a existing) = Some now
    \<and> st_next_run_at (touchRow now ownerId a existing) = Some (now + 5 * 60 * 1000)
    \<and> ((existing = None \<or> (\<exists>e. existing = Some e \<and>
            (st_status e \<in> {Idle, Ready, Failed, InsufficientSamples}
             \<or> st_window_started_at e = None)))
        \<longrightarrow> st_window_started_at (touchRow now ownerId a existing) = Some now)
    \<and> (\<forall>e w. existing = Some e \<and> st_status e \<in> {Pending, Running}
            \<and> st_window_started_at e = Some w
        \<longrightarrow> st_window_started_at (touchRow now ownerId a existing) = Some w)
    \<and> (\<forall>t. isDue t (touchRow now ownerId a existing) \<longleftrightarrow>
            (t \<ge> now + 5 * 60 * 1000 \<or>
             (\<exists>w. st_window_started_at (touchRow now ownerId a existing) = Some w
                  \<and> t - w \<ge> 30 * 60 * 1000)))
    \<and> (\<forall>e w instants t. existing = Some e \<and> st_status e = Pending
            \<and> st_window_started_at e = Some w \<and> t - w \<ge> 30 * 60 * 1000
        \<longrightarrow> (\<exists>e'. touchEvents ownerId a existing instants = Some e'
                  \<and> st_window_started_at e' = Some w
                  \<and> dueStates False t (selectStates False [e']) = [e']))"
proof -
  have p1: "st_last_event_at (touchRow now ownerId a existing) = Some now"
    by (rule touchRow_last_event)
  have p2: "st_next_run_at (touchRow now ownerId a existing) = Some (now + 5 * 60 * 1000)"
    using assms by (rule touchRow_next_run)
  have p3: "(existing = None \<or> (\<exists>e. existing = Some e \<and>
            (st_status e \<in> {Idle, Ready, Failed, InsufficientSamples}
             \<or> st_window_started_at e = None)))
        \<longrightarrow> st_window_started_at (touchRow now ownerId a existing) = Some now"
    using touchRow_window_reset[OF assms] by blast
  have p4: "\<forall>e w. existing = Some e \<and> st_status e \<in> {Pending, Running}
            \<and> st_window_started_at e = Some w
        \<longrightarrow> st_window_started_at (touchRow now ownerId a existing) = Some w"
  proof (intro allI impI)
    fix e w
    assume h: "existing = Some e \<and> st_status e \<in> {Pending, Running} \<and> st_window_started_at e = Some w"
    with assms have "\<not> st_manual_locked e" by (simp add: unlocked_def)
    with h show "st_window_started_at (touchRow now ownerId a existing) = Some w"
      by (intro touchRow_window_kept[of existing e]) simp_all
  qed
  have p5: "\<forall>t. isDue t (touchRow now ownerId a existing) \<longleftrightarrow>
            (t \<ge> now + 5 * 60 * 1000 \<or>
             (\<exists>w. st_window_started_at (touchRow now ownerId a existing) = Some w
                  \<and> t - w \<ge> 30 * 60 * 1000))"
    using isDue_after_touch[OF assms] by blast
  have p6: "\<forall>e w instants t. existing = Some e \<and> st_status e = Pending
            \<and> st_window_started_at e = Some w \<and> t - w \<ge> 30 * 60 * 1000
        \<longrightarrow> (\<exists>e'. touchEvents ownerId a existing instants = Some e'
                  \<and> st_window_started_at e' = Some w
                  \<and> dueStates False t (selectStates False [e']) = [e'])"
  proof (intro allI impI)
    fix e w instants t
    assume h: "existing = Some e \<and> st_status e = Pending
            \<and> st_window_started_at e = Some w \<and> t - w \<ge> 30 * 60 * 1000"
    with assms have nl: "\<not> st_manual_locked e" by (simp add: unlocked_def)
    from h nl obtain e' where e': "touchEvents ownerId a (Some e) instants = Some e'"
        "st_status e' = Pending" "st_window_started_at e' = Some w"
      using touchEvents_pending[of e w ownerId a instants] by blast
    have "isDue t e'" using e'(3) h by (intro isDue_max_wait[of e' w]) simp_all
    then have "dueStates False t (selectStates False [e']) = [e']"
      using e'(2) by (simp add: dueStates_def selectStates_def)
    with e' h show "\<exists>e'. touchEvents ownerId a existing instants = Some e'
                  \<and> st_window_started_at e' = Some w
                  \<and> dueStates False t (selectStates False [e']) = [e']"
      by auto
  qed
  from p1 p2 p3 p4 p5 p6 show ?thesis by blast
qed

theorem C2_witness:
  "unlocked None
   \<and> st_next_run_at (touchRow 0 ''o'' ''a'' None) = Some 300000
   \<and> st_window_started_at (touchRow 0 ''o'' ''a'' None) = Some 0
   \<and> st_next_run_at (touchRow 180000 ''o'' ''a'' (Some (touchRow 0 ''o'' ''a'' None))) = Some 480000
   \<and> st_window_started_at (touchRow 180000 ''o'' ''a'' (Some (touchRow 0 ''o'' ''a'' None))) = Some 0
   \<and> (\<exists>e'. touchEvents ''o'' ''a'' (Some (touchRow 0 ''o'' ''a'' None)) [180000, 1740000] = Some e'
          \<and> st_window_started_at e' = Some 0
          \<and> dueStates False 1800000 (selectStates False [e']) = [e'])"
proof -
  have u0: "unlocked None" by (simp add: unlocked_def)
  have u1: "unlocked (Some (touchRow 0 ''o'' ''a'' None))"
    using touchRow_unlocked[OF u0, of 0 "''o''" "''a''"] by (simp add: unlocked_def)
  have s1: "st_status (touchRow 0 ''o'' ''a'' None) = Pending"
    using touchRow_status[OF u0, of 0 "''o''" "''a''"] by simp
  note a = C2_touch_debounce[OF u0, of 0 "''o''" "''a''"]
  note b = C2_touch_debounce[OF u1, of 180000 "''o''" "''a''"]
  from a have w0: "st_window_started_at (touchRow 0 ''o'' ''a'' None) = Some 0" by simp
  from a have n0: "st_next_run_at (touchRow 0 ''o'' ''a'' None) = Some 300000" by simp
  from b have n1: "st_next_run_at (touchRow 180000 ''o'' ''a'' (Some (touchRow 0 ''o'' ''a'' None))) = Some 480000"
    by simp
  from b s1 w0 have w1: "st_window_started_at (touchRow 180000 ''o'' ''a'' (Some (touchRow 0 ''o'' ''a'' None))) = Some 0"
    by simp
  from b s1 w0 have "\<exists>e'. touchEvents ''o'' ''a'' (Some (touchRow 0 ''o'' ''a'' None)) [180000, 1740000] = Some e'
          \<and> st_window_started_at e' = Some 0
          \<and> dueStates False 1800000 (selectStates False [e']) = [e']"
    by simp
  with u0 n0 w0 n1 w1 show ?thesis by blast
qed

lemma updateState_same:
  "db_states d key = Some st \<Longrightarrow> db_states (updateState d key f) key = Some (f st)"
  by (simp add: updateState_def)

text \<open>
  Claim C10. When the state is dirty at the end of a run, finalization sets it pending,
  clears the dirty flag, sets \<^verbatim>\<open>next_run_at\<close> to the last event plus 5 minutes and
  resets the window start to the last event: from then on the state is due exactly from
  that deadline, whatever the window start was before.
\<close>

theorem C10_finalize_dirty_restarts_window:
  assumes "fault FinalizeSelect = None" and "fault FinalizeUpdate = None"
    and "db_states d (ownerId, a) = Some st" and "st_dirty st"
    and "st_last_event_at st = Some t"
  shows "fst (finalizeAssignmentTagState fault d ownerId a nowIso n model pv) = None
    \<and> (\<exists>st'. db_states (snd (finalizeAssignmentTagState fault d ownerId a nowIso n model pv))
                 (ownerId, a) = Some st'
            \<and> st_status st' = Pending
            \<and> st_dirty st' = False
            \<and> st_next_run_at st' = Some (t + 5 * 60 * 1000)
            \<and> st_window_started_at st' = Some t
            \<and> (\<forall>u. isDue u st' \<longleftrightarrow> u \<ge> t + 5 * 60 * 1000))"
proof -
  let ?f = "\<lambda>s. s\<lparr> st_sample_count := Some n, st_last_generated_at := Some nowIso,
                   st_model := Some model, st_prompt_version := Some pv,
                   st_updated_at := Some nowIso, st_dirty := False,
                   st_status := Pending, st_window_started_at := Some t,
                   st_next_run_at := Some (addMinutesIso t TAG_QUIET_MINUTES) \<rparr>"
  have eq: "finalizeAssignmentTagState fault d ownerId a nowIso n model pv
          = (None, updateState d (ownerId, a) ?f)"
    using assms by (simp add: finalizeAssignmentTagState_def Let_def)
  have st': "db_states (updateState d (ownerId, a) ?f) (ownerId, a) = Some (?f st)"
    using assms(3) by (rule updateState_same)
  have due: "\<forall>u. isDue u (?f st) \<longleftrightarrow> u \<ge> t + 5 * 60 * 1000"
    using assms(5)
    by (auto simp: isDue_def Let_def addMinutesIso_def TAG_QUIET_MINUTES_def TAG_MAX_WAIT_MINUTES_def)
  show ?thesis
    unfolding eq using st' due
    by (simp add: addMinutesIso_def TAG_QUIET_MINUTES_def)
qed

theorem C10_witness:
  "st_window_started_at exampleDirtyRunning = Some 0
   \<and> fst (finalizeAssignmentTagState noFaults
        (emptyDb\<lparr> db_states := [(''o'', ''a'') \<mapsto> exampleDirtyRunning] \<rparr>)
        ''o'' ''a'' 1750000 6 ''m'' ''v'') = None
   \<and> (\<exists>st'. db_states (snd (finalizeAssignmentTagState noFaults
        (emptyDb\<lparr> db_states := [(''o'', ''a'') \<mapsto> exampleDirtyRunning] \<rparr>)
        ''o'' ''a'' 1750000 6 ''m'' ''v'')) (''o'', ''a'') = Some st'
        \<and> st_status st' = Pending
        \<and> st_next_run_at st' = Some 2000000
        \<and> st_window_started_at st' = Some 1700000
        \<and> \<not> isDue 1900000 st')"
proof -
  have h: "noFaults FinalizeSelect = None" "noFaults FinalizeUpdate = None"
      "db_states (emptyDb\<lparr> db_states := [(''o'', ''a'') \<mapsto> exampleDirtyRunning] \<rparr>) (''o'', ''a'')
        = Some exampleDirtyRunning"
      "st_dirty exampleDirtyRunning" "st_last_event_at exampleDirtyRunning = Some 1700000"
    by (simp_all add: noFaults_def exampleDirtyRunning_def emptyDb_def)
  have w: "st_window_started_at exampleDirtyRunning = Some 0"
    by (simp add: exampleDirtyRunning_def)
  from C10_finalize_dirty_restarts_window[OF h, of 1750000 6 "''m''" "''v''"] w
  show ?thesis by fastforce
qed

section \<open>Properties of the aggregate replacement, the sync and the dictionary\<close>

lemma scopeRows_append:
  "scopeRows (d\<lparr> db_aggregates := xs @ ys \<rparr>) ownerId a
     = filter (sameScope ownerId a) xs @ filter (sameScope ownerId a) ys"
  by (simp add: scopeRows_def)

lemma filter_sameScope_aggregateRows:
  "filter (sameScope ownerId a) (aggregateRows ownerId a nowIso model pv tags)
     = aggregateRows ownerId a nowIso model pv tags"
  by (simp add: aggregateRows_def sameScope_def filter_map comp_def)

lemma filter_notScope_aggregateRows:
  "filter (\<lambda>r. \<not> sameScope ownerId a r) (aggregateRows ownerId a nowIso model pv tags) = []"
  by (simp add: aggregateRows_def sameScope_def filter_map comp_def)

lemma replaceAggregates_error:
  "fst (replaceAggregates deleteError insertError d ownerId a rows) = insertError"
  by (simp add: replaceAggregates_def insertAggregates_def split: option.splits)

text \<open>
  Claim C4, as stated, fails: when the upsert of the touch hook fails, the sync request
  answers 500 with that error, although the graded submission has been written.
\<close>

theorem C4_counterexample:
  "fst (handleSyncPost (faultAt TouchUpsert ''touch failed'') emptyDb 9 ''u'' [exampleSyncRow])
     = Failure 500 ''touch failed''
   \<and> map sub_id (db_submissions
        (snd (handleSyncPost (faultAt TouchUpsert ''touch failed'') emptyDb 9 ''u'' [exampleSyncRow])))
     = [''s1'']"
  by code_simp

text \<open>
  Claim C4, amended. For a sync request that marks submissions graded, a failure of the
  touch hook (of its select or of its upsert) is not swallowed: the request answers 500
  with the message of that error. The submissions upserted before it stay written and the
  tag states are left as they were.
\<close>

theorem C4_touch_failure_propagates:
  assumes "fault SyncEarlierSteps = None" and "fault SyncSubmissionsUpsert = None"
    and "touchedAssignments submissionRows \<noteq> []"
    and "fault TouchSelect = Some e \<or> (fault TouchSelect = None \<and> fault TouchUpsert = Some e)"
  shows "handleSyncPost fault d now userId submissionRows
     = (Failure 500 e,
        d\<lparr> db_submissions := foldl (upsertSubmission userId) (db_submissions d) submissionRows \<rparr>)"
proof -
  from assms(3) have ne: "submissionRows \<noteq> []"
    by (auto simp: touchedAssignments_def)
  let ?d1 = "d\<lparr> db_submissions := foldl (upsertSubmission userId) (db_submissions d) submissionRows \<rparr>"
  have "touchAssignmentTagStates fault ?d1 now userId (touchedAssignments submissionRows) = (Some e, ?d1)"
    using assms(3,4) by (auto simp: touchAssignmentTagStates_def Let_def)
  then show ?thesis
    using assms(1,2,3) ne by (simp add: handleSyncPost_def)
qed

theorem C4_witness:
  "touchedAssignments [exampleSyncRow] = [''a'']
   \<and> handleSyncPost (faultAt TouchSelect ''touch failed'') emptyDb 9 ''u'' [exampleSyncRow]
     = (Failure 500 ''touch failed'',
        emptyDb\<lparr> db_submissions :=
          foldl (upsertSubmission ''u'') (db_submissions emptyDb) [exampleSyncRow] \<rparr>)"
proof -
  have t: "touchedAssignments [exampleSyncRow] = [''a'']"
    by (simp add: touchedAssignments_def exampleSyncRow_def)
  have f: "faultAt TouchSelect ''touch failed'' SyncEarlierSteps = None"
      "faultAt TouchSelect ''touch failed'' SyncSubmissionsUpsert = None"
      "faultAt TouchSelect ''touch failed'' TouchSelect = Some ''touch failed''"
    by (simp_all add: faultAt_def noFaults_def)
  from t have ne: "touchedAssignments [exampleSyncRow] \<noteq> []" by simp
  from C4_touch_failure_propagates[OF f(1) f(2) ne, of "''touch failed''" emptyDb 9 "''u''"] f(3) t
  show ?thesis by simp
qed

text \<open>
  Claim C5 at a failing input. The dictionary of the owner is empty and the model returns
  the labels \<open>Sign Error\<close> and \<open>sign error\<close>. The run succeeds and leaves two active
  entries with the normalized label \<open>signerror\<close>.
\<close>

theorem C5_duplicate_active_labels:
  "activeLabelsUnique (db_dictionary exampleClusterDb)
   \<and> fst (sweepStep noFaults (Inr [exampleTag ''Sign Error'' 3, exampleTag ''sign error'' 2]) 5
            exampleClusterDb (touchRow 0 ''o'' ''a'' None)) = Inr (RunReady, 5)
   \<and> map (\<lambda>e. (de_normalized_label e, de_status e))
        (db_dictionary (snd (sweepStep noFaults
           (Inr [exampleTag ''Sign Error'' 3, exampleTag ''sign error'' 2]) 5
            exampleClusterDb (touchRow 0 ''o'' ''a'' None))))
       = [(''signerror'', Active), (''signerror'', Active)]
   \<and> \<not> activeLabelsUnique (db_dictionary (snd (sweepStep noFaults
           (Inr [exampleTag ''Sign Error'' 3, exampleTag ''sign error'' 2]) 5
            exampleClusterDb (touchRow 0 ''o'' ''a'' None))))"
  by code_simp

text \<open>
  The manual override has the same loop as the clustering run: two posted labels that
  normalize alike are both inserted as active entries.
\<close>

lemma override_duplicate_active_labels:
  "fst (handleOverride noFaults 7 emptyDb exampleDuplicateOverride) = Ok200
   \<and> map (\<lambda>e. (de_normalized_label e, de_status e))
        (db_dictionary (snd (handleOverride noFaults 7 emptyDb exampleDuplicateOverride)))
       = [(''signerror'', Active), (''signerror'', Active)]
   \<and> \<not> activeLabelsUnique
          (db_dictionary (snd (handleOverride noFaults 7 emptyDb exampleDuplicateOverride)))"
  by code_simp

text \<open>
  Claim C6 at a failing input. The owner has the active labels A, B, C and D, and the
  model returns the groups (A: A, B) and (B: B, C). After the run B is merged into A, and
  C is merged into B, which is not active.
\<close>

theorem C6_merge_chain:
  "mergedPointersActive (db_dictionary exampleMergeDb)
   \<and> fst (mergeDictionaryForOwner noFaults
        (Inr [exampleGroup ''A'' [''A'', ''B''], exampleGroup ''B'' [''B'', ''C'']]) 5
        exampleMergeDb ''o'') = Inr (MergeDone 2 2 2)
   \<and> map (\<lambda>e. (de_id e, de_status e, de_merged_to_tag_id e))
        (db_dictionary (snd (mergeDictionaryForOwner noFaults
          (Inr [exampleGroup ''A'' [''A'', ''B''], exampleGroup ''B'' [''B'', ''C'']]) 5
          exampleMergeDb ''o'')))
       = [(1, Active, None), (2, Merged, Some 1), (3, Merged, Some 2), (4, Active, None)]
   \<and> \<not> mergedPointersActive (db_dictionary (snd (mergeDictionaryForOwner noFaults
          (Inr [exampleGroup ''A'' [''A'', ''B''], exampleGroup ''B'' [''B'', ''C'']]) 5
          exampleMergeDb ''o'')))"
  by code_simp

text \<open>
  A chain also arises across runs, with groups that do not overlap: B was merged into A
  by an earlier run, and a run that merges A into C leaves B pointing at A.
\<close>

lemma merge_chain_across_runs:
  "mergedPointersActive (db_dictionary exampleChainDb)
   \<and> fst (mergeDictionaryForOwner noFaults (Inr [exampleGroup ''C'' [''C'', ''A'']]) 5
        exampleChainDb ''o'') = Inr (MergeDone 1 1 1)
   \<and> map (\<lambda>e. (de_id e, de_status e, de_merged_to_tag_id e))
        (db_dictionary (snd (mergeDictionaryForOwner noFaults
          (Inr [exampleGroup ''C'' [''C'', ''A'']]) 5 exampleChainDb ''o'')))
       = [(1, Merged, Some 3), (2, Merged, Some 1), (3, Active, None), (4, Active, None),
          (5, Active, None)]
   \<and> \<not> mergedPointersActive (db_dictionary (snd (mergeDictionaryForOwner noFaults
          (Inr [exampleGroup ''C'' [''C'', ''A'']]) 5 exampleChainDb ''o'')))"
  by code_simp

section \<open>Properties of the manual override\<close>

lemma db_aggregates_updateState [simp]:
  "db_aggregates (updateState d key f) = db_aggregates d"
  by (simp add: updateState_def split: option.splits)

lemma locked_run_keeps_aggregates:
  "st_manual_locked row \<Longrightarrow>
   db_aggregates (snd (aggregateAssignmentTags fault llm t d row)) = db_aggregates d"
  by (simp add: aggregateAssignmentTags_def Let_def split: option.splits)

lemma locked_sweep_keeps_aggregates:
  "st_manual_locked row \<Longrightarrow>
   db_aggregates (snd (sweepStep fault llm t d row)) = db_aggregates d"
  using locked_run_keeps_aggregates[of row fault llm t d]
  by (auto simp: sweepStep_def split: prod.splits sum.splits option.splits)

lemma touchRow_locked:
  "st_manual_locked e \<Longrightarrow>
   st_status (touchRow t ownerId a (Some e)) = Ready
   \<and> st_manual_locked (touchRow t ownerId a (Some e))
   \<and> \<not> st_dirty (touchRow t ownerId a (Some e))"
  by (simp add: touchRow_def Let_def)

lemma touchEvents_locked:
  "st_manual_locked e \<Longrightarrow> st_status e = Ready \<Longrightarrow> \<not> st_dirty e \<Longrightarrow>
   \<exists>e'. touchEvents ownerId a (Some e) instants = Some e' \<and> st_status e' = Ready
        \<and> st_manual_locked e' \<and> \<not> st_dirty e'"
proof (induction instants arbitrary: e)
  case Nil
  then show ?case by (simp add: touchEvents_def)
next
  case (Cons t instants)
  from touchRow_locked[OF Cons.prems(1), of t ownerId a]
  have "st_manual_locked (touchRow t ownerId a (Some e))"
       "st_status (touchRow t ownerId a (Some e)) = Ready"
       "\<not> st_dirty (touchRow t ownerId a (Some e))" by simp_all
  from Cons.IH[OF this] show ?case by (simp add: touchEvents_def)
qed

lemma handleOverride_fst:
  assumes "ov_ownerId payload = Some ownerRaw" and "trim ownerRaw \<noteq> []"
    and "ov_assignmentId payload = Some assignmentRaw" and "trim assignmentRaw \<noteq> []"
    and "overrideTags payload \<noteq> []"
    and "fault OvDictionarySelect = None" and "fault OvDictionaryInsert = None"
    and "fault OvAggInsert = None" and "fault OvStateUpsert = None"
  shows "fst (handleOverride fault nowIso d payload) = Ok200"
  using assms
  by (simp add: handleOverride_def Let_def replaceAggregates_def insertAggregates_def)

lemma handleOverride_aggregates:
  assumes "ov_ownerId payload = Some ownerRaw" and "trim ownerRaw \<noteq> []"
    and "ov_assignmentId payload = Some assignmentRaw" and "trim assignmentRaw \<noteq> []"
    and "overrideTags payload \<noteq> []"
    and "fault OvDictionarySelect = None" and "fault OvDictionaryInsert = None"
    and "fault OvAggInsert = None" and "fault OvStateUpsert = None"
    and "fault OvAggDelete = None"
  shows "db_aggregates (snd (handleOverride fault nowIso d payload))
     = otherRows d (trim ownerRaw) (trim assignmentRaw)
       @ aggregateRows (trim ownerRaw) (trim assignmentRaw) nowIso ''manual'' ''manual''
           (overrideTags payload)"
  using assms
  by (simp add: handleOverride_def Let_def replaceAggregates_def insertAggregates_def
      deleteAggregates_def otherRows_def)

lemma handleOverride_state:
  assumes "ov_ownerId payload = Some ownerRaw" and "trim ownerRaw \<noteq> []"
    and "ov_assignmentId payload = Some assignmentRaw" and "trim assignmentRaw \<noteq> []"
    and "overrideTags payload \<noteq> []"
    and "fault OvDictionarySelect = None" and "fault OvDictionaryInsert = None"
    and "fault OvAggInsert = None" and "fault OvStateUpsert = None"
  shows "\<exists>n. db_states (snd (handleOverride fault nowIso d payload)) (trim ownerRaw, trim assignmentRaw)
     = Some (overrideStateRow (trim ownerRaw) (trim assignmentRaw) nowIso n
               (overrideLocked payload) (db_states d (trim ownerRaw, trim assignmentRaw)))"
  using assms
  by (auto simp: handleOverride_def Let_def replaceAggregates_def insertAggregates_def
      deleteAggregates_def split: option.splits)

lemma overrideStateRow_fields:
  "st_status (overrideStateRow ownerId a nowIso n locked existing) = Ready
   \<and> st_manual_locked (overrideStateRow ownerId a nowIso n locked existing) = locked
   \<and> \<not> st_dirty (overrideStateRow ownerId a nowIso n locked existing)"
  by (simp add: overrideStateRow_def Let_def)

lemma map_filter_all_valid:
  "\<forall>tag \<in> set posted. tagLabelOf tag \<noteq> [] \<and> (\<exists>c. rt_count tag = Some c \<and> 0 < c) \<Longrightarrow>
   map (\<lambda>t. (nt_label t, nt_count t)) (List.map_filter normalizeOverrideTag posted)
     = map (\<lambda>tag. (tagLabelOf tag, case rt_count tag of Some c \<Rightarrow> c | None \<Rightarrow> 0)) posted"
  by (induction posted) (auto simp: normalizeOverrideTag_def Let_def)

lemma aggregateRows_labels:
  "map (\<lambda>r. (ar_tag_label r, ar_tag_count r)) (aggregateRows ownerId a nowIso model pv tags)
     = map (\<lambda>t. (nt_label t, nt_count t)) tags"
  by (simp add: aggregateRows_def comp_def)

text \<open>
  Claim C8. A manual override whose owner and assignment are not empty, whose tag list
  holds at least one valid tag and whose storage calls succeed replaces the rows of the
  assignment by the rows of the posted tags (all of them when every posted tag is valid)
  and leaves the state ready and, by default, manually locked. From then on, whatever
  events follow, the state stays ready, locked and not dirty, the default sweep never
  selects it, and no run of the sweep on it changes the aggregate rows.
\<close>

theorem C8_manual_override_pins:
  assumes "ov_ownerId payload = Some ownerRaw" and "trim ownerRaw \<noteq> []"
    and "ov_assignmentId payload = Some assignmentRaw" and "trim assignmentRaw \<noteq> []"
    and "overrideTags payload \<noteq> []"
    and "fault OvDictionarySelect = None" and "fault OvDictionaryInsert = None"
    and "fault OvAggInsert = None" and "fault OvStateUpsert = None"
    and "fault OvAggDelete = None"
    and "overrideLocked payload"
  shows "fst (handleOverride fault nowIso d payload) = Ok200
    \<and> scopeRows (snd (handleOverride fault nowIso d payload)) (trim ownerRaw) (trim assignmentRaw)
        = aggregateRows (trim ownerRaw) (trim assignmentRaw) nowIso ''manual'' ''manual''
            (overrideTags payload)
    \<and> (\<forall>posted. ov_tags payload = Some posted
           \<and> (\<forall>tag \<in> set posted. tagLabelOf tag \<noteq> [] \<and> (\<exists>c. rt_count tag = Some c \<and> 0 < c))
         \<longrightarrow> map (\<lambda>r. (ar_tag_label r, ar_tag_count r))
               (scopeRows (snd (handleOverride fault nowIso d payload)) (trim ownerRaw)
                  (trim assignmentRaw))
             = map (\<lambda>tag. (tagLabelOf tag, case rt_count tag of Some c \<Rightarrow> c | None \<Rightarrow> 0)) posted)
    \<and> (\<exists>st. db_states (snd (handleOverride fault nowIso d payload))
                 (trim ownerRaw, trim assignmentRaw) = Some st
          \<and> st_status st = Ready \<and> st_manual_locked st \<and> \<not> st_dirty st
          \<and> (\<forall>instants. \<exists>st'.
                 touchEvents (trim ownerRaw) (trim assignmentRaw) (Some st) instants = Some st'
               \<and> st_status st' = Ready \<and> st_manual_locked st' \<and> \<not> st_dirty st'
               \<and> (\<forall>t. dueStates False t (selectStates False [st']) = [])
               \<and> (\<forall>fault' llm t d'.
                     db_aggregates (snd (sweepStep fault' llm t d' st')) = db_aggregates d')))"
proof -
  let ?o = "trim ownerRaw" and ?a = "trim assignmentRaw"
  let ?r = "handleOverride fault nowIso d payload"
  have ok: "fst ?r = Ok200"
    using assms(1-9) by (rule handleOverride_fst)
  have agg: "db_aggregates (snd ?r)
      = otherRows d ?o ?a @ aggregateRows ?o ?a nowIso ''manual'' ''manual'' (overrideTags payload)"
    using assms(1-10) by (rule handleOverride_aggregates)
  have rows: "scopeRows (snd ?r) ?o ?a
      = aggregateRows ?o ?a nowIso ''manual'' ''manual'' (overrideTags payload)"
    unfolding scopeRows_def agg
    by (simp add: otherRows_def filter_sameScope_aggregateRows)
  have posted: "\<forall>posted. ov_tags payload = Some posted
           \<and> (\<forall>tag \<in> set posted. tagLabelOf tag \<noteq> [] \<and> (\<exists>c. rt_count tag = Some c \<and> 0 < c))
         \<longrightarrow> map (\<lambda>r. (ar_tag_label r, ar_tag_count r)) (scopeRows (snd ?r) ?o ?a)
             = map (\<lambda>tag. (tagLabelOf tag, case rt_count tag of Some c \<Rightarrow> c | None \<Rightarrow> 0)) posted"
    unfolding rows aggregateRows_labels
    by (auto simp: overrideTags_def intro: map_filter_all_valid)
  obtain n where st: "db_states (snd ?r) (?o, ?a)
      = Some (overrideStateRow ?o ?a nowIso n (overrideLocked payload) (db_states d (?o, ?a)))"
    using handleOverride_state[OF assms(1-9)] by blast
  let ?st = "overrideStateRow ?o ?a nowIso n (overrideLocked payload) (db_states d (?o, ?a))"
  have f: "st_status ?st = Ready" "st_manual_locked ?st" "\<not> st_dirty ?st"
    using overrideStateRow_fields[of ?o ?a nowIso n "overrideLocked payload" "db_states d (?o, ?a)"]
      assms(11) by simp_all
  have ev: "\<forall>instants. \<exists>st'. touchEvents ?o ?a (Some ?st) instants = Some st'
               \<and> st_status st' = Ready \<and> st_manual_locked st' \<and> \<not> st_dirty st'
               \<and> (\<forall>t. dueStates False t (selectStates False [st']) = [])
               \<and> (\<forall>fault' llm t d'.
                     db_aggregates (snd (sweepStep fault' llm t d' st')) = db_aggregates d')"
  proof
    fix instants
    obtain st' where s': "touchEvents ?o ?a (Some ?st) instants = Some st'"
        "st_status st' = Ready" "st_manual_locked st'" "\<not> st_dirty st'"
      using touchEvents_locked[OF f(2) f(1) f(3), of ?o ?a instants] by blast
    have sel: "\<forall>t. dueStates False t (selectStates False [st']) = []"
      using s'(2) by (simp add: dueStates_def selectStates_def)
    have keep: "\<forall>fault' llm t d'.
        db_aggregates (snd (sweepStep fault' llm t d' st')) = db_aggregates d'"
      using locked_sweep_keeps_aggregates[OF s'(3)] by blast
    from s' sel keep show "\<exists>st'. touchEvents ?o ?a (Some ?st) instants = Some st'
               \<and> st_status st' = Ready \<and> st_manual_locked st' \<and> \<not> st_dirty st'
               \<and> (\<forall>t. dueStates False t (selectStates False [st']) = [])
               \<and> (\<forall>fault' llm t d'.
                     db_aggregates (snd (sweepStep fault' llm t d' st')) = db_aggregates d')"
      by blast
  qed
  from ok rows posted st f ev show ?thesis by blast
qed

lemma exampleOverride_tags:
  "overrideTags exampleOverride = [\<lparr> nt_label = ''calc error'', nt_count = 12, nt_examples = None \<rparr>]"
  by (simp add: overrideTags_def exampleOverride_def exampleTag_def normalizeOverrideTag_def
      tagLabelOf_def tagExamplesOf_def trim_def isSpace_def)

theorem C8_witness:
  "overrideLocked exampleOverride
   \<and> map (\<lambda>r. (ar_tag_label r, ar_tag_count r)) (scopeRows exampleClusterDb ''o'' ''a'') = [(''units'', 4)]
   \<and> fst (handleOverride noFaults 7 exampleClusterDb exampleOverride) = Ok200
   \<and> map (\<lambda>r. (ar_tag_label r, ar_tag_count r))
        (scopeRows (snd (handleOverride noFaults 7 exampleClusterDb exampleOverride)) ''o'' ''a'')
       = [(''calc error'', 12)]
   \<and> (\<exists>st. db_states (snd (handleOverride noFaults 7 exampleClusterDb exampleOverride)) (''o'', ''a'')
               = Some st
          \<and> st_status st = Ready \<and> st_manual_locked st
          \<and> (\<exists>st'. touchEvents ''o'' ''a'' (Some st) [400000] = Some st'
                \<and> st_status st' = Ready \<and> \<not> st_dirty st'
                \<and> dueStates False 900000 (selectStates False [st']) = []))"
proof -
  have l: "overrideLocked exampleOverride"
    by (simp add: overrideLocked_def exampleOverride_def parseBooleanParam_def)
  have old: "map (\<lambda>r. (ar_tag_label r, ar_tag_count r)) (scopeRows exampleClusterDb ''o'' ''a'') = [(''units'', 4)]"
    by (simp add: scopeRows_def exampleClusterDb_def exampleOldRow_def sameScope_def)
  have h: "ov_ownerId exampleOverride = Some ''o''" "trim ''o'' \<noteq> []"
      "ov_assignmentId exampleOverride = Some ''a''" "trim ''a'' \<noteq> []"
      "overrideTags exampleOverride \<noteq> []"
      "noFaults OvDictionarySelect = None" "noFaults OvDictionaryInsert = None"
      "noFaults OvAggInsert = None" "noFaults OvStateUpsert = None" "noFaults OvAggDelete = None"
    by (simp_all add: exampleOverride_def exampleOverride_tags[unfolded exampleOverride_def] noFaults_def)
  from C8_manual_override_pins[OF h l, of 7 exampleClusterDb] l old
  show ?thesis
    by (simp add: exampleOverride_tags aggregateRows_def) blast
qed

section \<open>Properties of the issue statistics\<close>

lemma set_uniqFirst [simp]: "set (uniqFirst xs) = set xs"
  by (induction xs rule: uniqFirst.induct) auto

lemma distinct_uniqFirst [simp]: "distinct (uniqFirst xs)"
  by (induction xs rule: uniqFirst.induct) auto

lemma set_setAdd [simp]: "set (setAdd x xs) = insert x (set xs)"
  by (auto simp: setAdd_def)

lemma distinct_setAdd [simp]: "distinct (setAdd x xs) = distinct xs"
  by (auto simp: setAdd_def)

lemma map_fst_bucket_update:
  "map fst (map (\<lambda>(k, bucket). if k = issue then (k, f bucket) else (k, bucket)) m) = map fst m"
  by (induction m) auto

lemma map_of_bucket_update:
  "map_of (map (\<lambda>(k, bucket). if k = issue then (k, f bucket) else (k, bucket)) m) k'
     = (if k' = issue then map_option f (map_of m k') else map_of m k')"
  by (induction m) auto

lemma addIssue_keys:
  "map fst (addIssue key m issue)
     = (if issue \<in> fst ` set m then map fst m else map fst m @ [issue])"
  unfolding addIssue_def Let_def
  by (simp only: map_fst_bucket_update if_distrib[of "map fst"] map_append list.map fst_conv if_cancel
      split: if_splits)

lemma map_of_append_new:
  "issue \<notin> fst ` set m \<Longrightarrow> map_of (m @ [(issue, [])]) k = (if k = issue then Some [] else map_of m k)"
  by (induction m) auto

lemma addIssue_bucket:
  "bucketOf (addIssue key m issue) k
     = (if k = issue \<and> key \<noteq> [] then setAdd key (bucketOf m k) else bucketOf m k)"
proof (cases "issue \<in> fst ` set m")
  case True
  then obtain b where "map_of m issue = Some b"
    by (metis domD dom_map_of_conv_image_fst)
  with True show ?thesis
    by (simp add: addIssue_def Let_def bucketOf_def map_of_bucket_update)
next
  case False
  then have "map_of m issue = None"
    by (simp add: map_of_eq_None_iff)
  with False show ?thesis
    by (auto simp: addIssue_def Let_def bucketOf_def map_of_bucket_update map_add_def
        split: option.splits)
qed

lemma addIssue_distinct:
  "distinct (map fst m) \<Longrightarrow> distinct (map fst (addIssue key m issue))"
  by (simp add: addIssue_keys)

lemma addIssue_key_set:
  "fst ` set (addIssue key m issue) = insert issue (fst ` set m)"
  using arg_cong[OF addIssue_keys[of key m issue], of set] by (auto split: if_splits)

lemma foldl_addIssue_keys:
  "fst ` set (foldl (addIssue key) m issues) = fst ` set m \<union> set issues"
  by (induction issues arbitrary: m) (auto simp: addIssue_key_set)

lemma foldl_addIssue_distinct:
  "distinct (map fst m) \<Longrightarrow> distinct (map fst (foldl (addIssue key) m issues))"
  by (induction issues arbitrary: m) (simp_all add: addIssue_distinct)

lemma setAdd_idem: "setAdd x (setAdd x xs) = setAdd x xs"
  by (simp add: setAdd_def)

lemma foldl_addIssue_bucket:
  "bucketOf (foldl (addIssue key) m issues) k
     = (if k \<in> set issues \<and> key \<noteq> [] then setAdd key (bucketOf m k) else bucketOf m k)"
  by (induction issues arbitrary: m) (auto simp: addIssue_bucket setAdd_idem)

lemma addSubmission_keys:
  "fst ` set (addSubmission m sub) = fst ` set m \<union> set (issuesOf sub)"
  by (simp add: addSubmission_def Let_def foldl_addIssue_keys)

lemma addSubmission_distinct:
  "distinct (map fst m) \<Longrightarrow> distinct (map fst (addSubmission m sub))"
  by (simp add: addSubmission_def Let_def foldl_addIssue_distinct)

lemma addSubmission_bucket:
  "bucketOf (addSubmission m sub) k
     = (if k \<in> set (issuesOf sub) \<and> ownerKeyOf sub \<noteq> []
        then setAdd (ownerKeyOf sub) (bucketOf m k) else bucketOf m k)"
  by (auto simp: addSubmission_def Let_def foldl_addIssue_bucket)

lemma foldl_addSubmission_keys:
  "fst ` set (foldl addSubmission m subs)
     = fst ` set m \<union> (\<Union>sub \<in> set subs. set (issuesOf sub))"
  by (induction subs arbitrary: m) (simp_all add: addSubmission_keys Un_assoc)

lemma foldl_addSubmission_distinct:
  "distinct (map fst m) \<Longrightarrow> distinct (map fst (foldl addSubmission m subs))"
  by (induction subs arbitrary: m) (simp_all add: addSubmission_distinct)

lemma foldl_addSubmission_bucket_distinct:
  "distinct (bucketOf m k) \<Longrightarrow> distinct (bucketOf (foldl addSubmission m subs) k)"
  by (induction subs arbitrary: m) (simp_all add: addSubmission_bucket)

lemma studentsWithIssue_Cons:
  "studentsWithIssue (sub # subs) k
     = (if k \<in> set (issuesOf sub) \<and> ownerKeyOf sub \<noteq> [] then {ownerKeyOf sub} else {})
       \<union> studentsWithIssue subs k"
  by (auto simp: studentsWithIssue_def)

lemma foldl_addSubmission_bucket_set:
  "set (bucketOf (foldl addSubmission m subs) k) = set (bucketOf m k) \<union> studentsWithIssue subs k"
proof (induction subs arbitrary: m)
  case Nil
  then show ?case by (simp add: studentsWithIssue_def)
next
  case (Cons sub subs)
  show ?case
    by (simp add: Cons.IH addSubmission_bucket studentsWithIssue_Cons)
qed

lemma issueMap_count:
  assumes "(issue, bucket) \<in> set (foldl addSubmission [] subs)"
  shows "length bucket = card (studentsWithIssue subs issue)"
proof -
  let ?m = "foldl addSubmission [] subs"
  have d: "distinct (map fst ?m)"
    by (rule foldl_addSubmission_distinct) simp
  with assms have "map_of ?m issue = Some bucket" by simp
  then have b: "bucketOf ?m issue = bucket" by (simp add: bucketOf_def)
  have "distinct (bucketOf ?m issue)"
    by (rule foldl_addSubmission_bucket_distinct) (simp add: bucketOf_def)
  moreover have "set (bucketOf ?m issue) = studentsWithIssue subs issue"
    unfolding foldl_addSubmission_bucket_set by (simp add: bucketOf_def)
  ultimately show ?thesis using b distinct_card by fastforce
qed

lemma issueMap_counts_fst:
  "map fst (map (\<lambda>(issue, bucket). (issue, length bucket)) m) = map fst m"
  by (induction m) auto

lemma buildIssueStats_set:
  "set (buildIssueStats subs)
     = (\<lambda>(issue, bucket). (issue, length bucket)) ` set (foldl addSubmission [] subs)"
  by (simp add: buildIssueStats_def sortByCountDesc_def)

lemma buildIssueStats_count:
  assumes "e \<in> set (buildIssueStats subs)"
  shows "snd e = card (studentsWithIssue subs (fst e))"
proof -
  from assms obtain issue bucket where
    m: "(issue, bucket) \<in> set (foldl addSubmission [] subs)" and e: "e = (issue, length bucket)"
    by (auto simp: buildIssueStats_set)
  from issueMap_count[OF m] e show ?thesis by simp
qed

lemma buildIssueStats_keys:
  "fst ` set (buildIssueStats subs) = (\<Union>sub \<in> set subs. set (issuesOf sub))"
proof -
  have "fst ` set (buildIssueStats subs) = fst ` set (foldl addSubmission [] subs)"
    by (force simp: buildIssueStats_set)
  then show ?thesis by (simp add: foldl_addSubmission_keys)
qed

lemma distinct_map_sort_key: "distinct (map f (sort_key k xs)) = distinct (map f xs)"
proof -
  have "mset (map f (sort_key k xs)) = mset (map f xs)"
    by (simp only: mset_map mset_sort)
  then show ?thesis by (rule mset_eq_imp_distinct_iff)
qed

lemma buildIssueStats_distinct: "distinct (map fst (buildIssueStats subs))"
  unfolding buildIssueStats_def sortByCountDesc_def distinct_map_sort_key issueMap_counts_fst
  by (rule foldl_addSubmission_distinct) simp

lemma buildIssueStats_sorted:
  "sorted (map (\<lambda>e. - int (snd e)) (buildIssueStats subs))"
  by (simp add: buildIssueStats_def sortByCountDesc_def)

lemma sorted_take_drop:
  assumes "sorted (map f xs)" and "x \<in> set (take n xs)" and "y \<in> set (drop n xs)"
  shows "f x \<le> f y"
proof -
  have "sorted (map f (take n xs) @ map f (drop n xs))"
    using assms(1) by (simp add: map_append[symmetric] del: map_append)
  with assms(2,3) show ?thesis
    by (auto simp: sorted_append)
qed

lemma studentsWithIssue_explicit:
  "studentsWithIssue subs issue
     = {key. key \<noteq> [] \<and> (\<exists>sub \<in> set subs. issue \<in> set (issuesOf sub)
          \<and> key = (case sub_student_id sub of
                     Some sid \<Rightarrow> if sid \<noteq> [] then sid else sub_id sub
                   | None \<Rightarrow> sub_id sub))}"
  by (auto simp: studentsWithIssue_def ownerKeyOf_def)

lemma studentsWithIssue_students:
  assumes "\<forall>sub \<in> set subs. \<exists>sid. sub_student_id sub = Some sid \<and> sid \<noteq> []"
  shows "studentsWithIssue subs issue
     = {sid. \<exists>sub \<in> set subs. sub_student_id sub = Some sid \<and> issue \<in> set (issuesOf sub)}"
proof (intro set_eqI iffI)
  fix x
  assume "x \<in> studentsWithIssue subs issue"
  then obtain sub where s: "sub \<in> set subs" "issue \<in> set (issuesOf sub)" "x = ownerKeyOf sub"
    by (auto simp: studentsWithIssue_def)
  from assms s(1) obtain sid where "sub_student_id sub = Some sid" "sid \<noteq> []" by blast
  with s show "x \<in> {sid. \<exists>sub \<in> set subs. sub_student_id sub = Some sid \<and> issue \<in> set (issuesOf sub)}"
    by (auto simp: ownerKeyOf_def)
next
  fix x
  assume "x \<in> {sid. \<exists>sub \<in> set subs. sub_student_id sub = Some sid \<and> issue \<in> set (issuesOf sub)}"
  then obtain sub where s: "sub \<in> set subs" "issue \<in> set (issuesOf sub)" "sub_student_id sub = Some x"
    by blast
  from assms s(1,3) have "x \<noteq> []" by auto
  with s(3) have "ownerKeyOf sub = x" by (simp add: ownerKeyOf_def)
  with s \<open>x \<noteq> []\<close> show "x \<in> studentsWithIssue subs issue"
    by (auto simp: studentsWithIssue_def)
qed

text \<open>
  Claim C7. In the statistics built from a list of submissions, the count of an issue is
  the number of distinct students who produced it: the number of distinct values, over the
  submissions whose issues contain it, of the student identifier of the submission (of the
  identifier of the submission itself when the student identifier is missing or empty). When
  every submission has a student identifier, that is the number of distinct student
  identifiers. Every issue appears once; the entries are in descending order of count; the
  table passed on is the first 50 entries, so no dropped entry has a greater count than a
  kept one.
\<close>

theorem C7_issue_stats:
  "(\<forall>e \<in> set (buildIssueStats subs).
      snd e = card {key. key \<noteq> [] \<and> (\<exists>sub \<in> set subs. fst e \<in> set (issuesOf sub)
                \<and> key = (case sub_student_id sub of
                           Some sid \<Rightarrow> if sid \<noteq> [] then sid else sub_id sub
                         | None \<Rightarrow> sub_id sub))})
   \<and> ((\<forall>sub \<in> set subs. \<exists>sid. sub_student_id sub = Some sid \<and> sid \<noteq> [])
       \<longrightarrow> (\<forall>e \<in> set (buildIssueStats subs).
             snd e = card {sid. \<exists>sub \<in> set subs. sub_student_id sub = Some sid
                                 \<and> fst e \<in> set (issuesOf sub)}))
   \<and> distinct (map fst (buildIssueStats subs))
   \<and> fst ` set (buildIssueStats subs) = (\<Union>sub \<in> set subs. set (issuesOf sub))
   \<and> sorted (map (\<lambda>e. - int (snd e)) (buildIssueStats subs))
   \<and> issueStats subs = take 50 (buildIssueStats subs)
   \<and> length (issueStats subs) \<le> 50
   \<and> (\<forall>kept \<in> set (issueStats subs). \<forall>dropped \<in> set (drop 50 (buildIssueStats subs)).
         snd dropped \<le> snd kept)"
proof -
  have c: "\<forall>e \<in> set (buildIssueStats subs).
      snd e = card {key. key \<noteq> [] \<and> (\<exists>sub \<in> set subs. fst e \<in> set (issuesOf sub)
                \<and> key = (case sub_student_id sub of
                           Some sid \<Rightarrow> if sid \<noteq> [] then sid else sub_id sub
                         | None \<Rightarrow> sub_id sub))}"
    using buildIssueStats_count[of _ subs] unfolding studentsWithIssue_explicit by blast
  have s: "(\<forall>sub \<in> set subs. \<exists>sid. sub_student_id sub = Some sid \<and> sid \<noteq> [])
       \<longrightarrow> (\<forall>e \<in> set (buildIssueStats subs).
             snd e = card {sid. \<exists>sub \<in> set subs. sub_student_id sub = Some sid
                                 \<and> fst e \<in> set (issuesOf sub)})"
  proof (intro impI ballI)
    fix e
    assume a: "\<forall>sub \<in> set subs. \<exists>sid. sub_student_id sub = Some sid \<and> sid \<noteq> []"
      and e: "e \<in> set (buildIssueStats subs)"
    from buildIssueStats_count[OF e]
    show "snd e = card {sid. \<exists>sub \<in> set subs. sub_student_id sub = Some sid
                                 \<and> fst e \<in> set (issuesOf sub)}"
      unfolding studentsWithIssue_students[OF a] .
  qed
  have t: "issueStats subs = take 50 (buildIssueStats subs)"
    by (simp add: issueStats_def TAG_TOP_ISSUES_def)
  have l: "length (issueStats subs) \<le> 50"
    by (simp add: t)
  have k: "\<forall>kept \<in> set (issueStats subs). \<forall>dropped \<in> set (drop 50 (buildIssueStats subs)).
         snd dropped \<le> snd kept"
  proof (intro ballI)
    fix kept dropped
    assume "kept \<in> set (issueStats subs)" and "dropped \<in> set (drop 50 (buildIssueStats subs))"
    then have "- int (snd kept) \<le> - int (snd dropped)"
      unfolding t by (rule sorted_take_drop[OF buildIssueStats_sorted])
    then show "snd dropped \<le> snd kept" by simp
  qed
  show ?thesis
    by (rule conjI[OF c conjI[OF s conjI[OF buildIssueStats_distinct
          conjI[OF buildIssueStats_keys conjI[OF buildIssueStats_sorted
            conjI[OF t conjI[OF l k]]]]]]])
qed

lemma scenarioB_stats:
  "buildIssueStats scenarioB = [(''sign error'', 3), (''missing units'', 2), (''wrong formula'', 1)]"
  by code_simp

lemma exampleRepeats_stats:
  "buildIssueStats exampleRepeats = [(''sign error'', 2), (''missing units'', 2)]"
  by code_simp

lemma exampleRepeats_students:
  "\<forall>sub \<in> set exampleRepeats. \<exists>sid. sub_student_id sub = Some sid \<and> sid \<noteq> []"
  by (simp add: exampleRepeats_def exampleSubmission_def)

lemma scenarioB_students:
  "\<forall>sub \<in> set scenarioB. \<exists>sid. sub_student_id sub = Some sid \<and> sid \<noteq> []"
  by (simp add: scenarioB_def exampleSubmission_def)

theorem C7_witness:
  "map sub_student_id exampleRepeats = [Some ''s1'', Some ''s1'', Some ''s2'', Some ''s3'']
   \<and> issueStats exampleRepeats = [(''sign error'', 2), (''missing units'', 2)]
   \<and> card {sid. \<exists>sub \<in> set exampleRepeats. sub_student_id sub = Some sid
                  \<and> ''sign error'' \<in> set (issuesOf sub)} = 2
   \<and> card {sid. \<exists>sub \<in> set exampleRepeats. sub_student_id sub = Some sid
                  \<and> ''missing units'' \<in> set (issuesOf sub)} = 2
   \<and> issueStats scenarioB = [(''sign error'', 3), (''missing units'', 2), (''wrong formula'', 1)]
   \<and> card {sid. \<exists>sub \<in> set scenarioB. sub_student_id sub = Some sid
                  \<and> ''sign error'' \<in> set (issuesOf sub)} = 3"
proof -
  have m: "map sub_student_id exampleRepeats = [Some ''s1'', Some ''s1'', Some ''s2'', Some ''s3'']"
    by (simp add: exampleRepeats_def exampleSubmission_def)
  from C7_issue_stats[of exampleRepeats] exampleRepeats_students
  have r: "issueStats exampleRepeats = [(''sign error'', 2), (''missing units'', 2)]
   \<and> card {sid. \<exists>sub \<in> set exampleRepeats. sub_student_id sub = Some sid
                  \<and> ''sign error'' \<in> set (issuesOf sub)} = 2
   \<and> card {sid. \<exists>sub \<in> set exampleRepeats. sub_student_id sub = Some sid
                  \<and> ''missing units'' \<in> set (issuesOf sub)} = 2"
    by (simp add: exampleRepeats_stats)
  from C7_issue_stats[of scenarioB] scenarioB_students
  have b: "issueStats scenarioB = [(''sign error'', 3), (''missing units'', 2), (''wrong formula'', 1)]
   \<and> card {sid. \<exists>sub \<in> set scenarioB. sub_student_id sub = Some sid
                  \<and> ''sign error'' \<in> set (issuesOf sub)} = 3"
    by (simp add: scenarioB_stats)
  from m r b show ?thesis by (intro conjI) simp_all
qed

section \<open>Properties of the ability rollup\<close>


lemma statStep_keys:
  "fst ` set (statStep byTag domains stats row)
     = fst ` set stats \<union> (case mappingOfRow byTag row of Some m \<Rightarrow> {am_ability_id m} | None \<Rightarrow> {})"
  by (auto simp: statStep_def Let_def split: option.splits prod.splits if_splits) force+

lemma statStep_key_list:
  "map fst (statStep byTag domains stats row)
     = (case mappingOfRow byTag row of
          None \<Rightarrow> map fst stats
        | Some m \<Rightarrow> if am_ability_id m \<in> fst ` set stats then map fst stats
                    else map fst stats @ [am_ability_id m])"
proof (cases "mappingOfRow byTag row")
  case None
  then show ?thesis by (simp add: statStep_def)
next
  case (Some m)
  show ?thesis
    unfolding statStep_def Let_def Some option.case
    by (simp only: map_fst_bucket_update if_distrib[of "map fst"] map_append list.map fst_conv
        split: if_splits)
qed

lemma statStep_distinct:
  "distinct (map fst stats) \<Longrightarrow> distinct (map fst (statStep byTag domains stats row))"
  unfolding statStep_key_list by (auto split: option.splits)

lemma statStep_map_of:
  "map_of (statStep byTag domains stats row) k
     = (case mappingOfRow byTag row of
          None \<Rightarrow> map_of stats k
        | Some m \<Rightarrow>
            if k = am_ability_id m
            then Some (addToBucket domains m row
                         (case map_of stats k of Some bucket \<Rightarrow> bucket | None \<Rightarrow> (0, [], [])))
            else map_of stats k)"
proof (cases "mappingOfRow byTag row")
  case None
  then show ?thesis by (simp add: statStep_def)
next
  case (Some m)
  show ?thesis
  proof (cases "am_ability_id m \<in> fst ` set stats")
    case True
    then obtain bucket where "map_of stats (am_ability_id m) = Some bucket"
      by (metis domD dom_map_of_conv_image_fst)
    with True Some show ?thesis
      by (simp add: statStep_def Let_def map_of_bucket_update)
  next
    case False
    then have "map_of stats (am_ability_id m) = None"
      by (simp add: map_of_eq_None_iff)
    with False Some show ?thesis
      by (auto simp: statStep_def Let_def map_of_bucket_update map_add_def split: option.splits)
  qed
qed

lemma statStep_total:
  "totalOf (statStep byTag domains stats row) k
     = totalOf stats k
       + (case mappingOfRow byTag row of
            Some m \<Rightarrow> if am_ability_id m = k then rat_of_int (ar_tag_count row) * weightOf m else 0
          | None \<Rightarrow> 0)"
  by (auto simp: totalOf_def statStep_map_of addToBucket_def split: option.splits prod.splits)

lemma statStep_assignments:
  "assignmentsOf (statStep byTag domains stats row) k
     = (if contributes byTag k row \<and> ar_assignment_id row \<noteq> []
        then setAdd (ar_assignment_id row) (assignmentsOf stats k) else assignmentsOf stats k)"
  by (auto simp: assignmentsOf_def statStep_map_of addToBucket_def contributes_def
      split: option.splits prod.splits)

lemma statStep_domains:
  "domainsOf (statStep byTag domains stats row) k
     = (if contributes byTag k row \<and> ar_assignment_id row \<noteq> []
        then setAdd (domainOf domains (ar_assignment_id row)) (domainsOf stats k)
        else domainsOf stats k)"
  by (auto simp: domainsOf_def statStep_map_of addToBucket_def contributes_def
      split: option.splits prod.splits)

lemma contributes_keys:
  "(case mappingOfRow byTag row of Some m \<Rightarrow> {am_ability_id m} | None \<Rightarrow> {})
     = {k. contributes byTag k row}"
  by (auto simp: contributes_def split: option.splits)

lemma foldl_statStep_keys:
  "fst ` set (foldl (statStep byTag domains) stats rows)
     = fst ` set stats \<union> {k. \<exists>row \<in> set rows. contributes byTag k row}"
  by (induction rows arbitrary: stats) (auto simp: statStep_keys contributes_keys)

lemma foldl_statStep_distinct:
  "distinct (map fst stats) \<Longrightarrow> distinct (map fst (foldl (statStep byTag domains) stats rows))"
  by (induction rows arbitrary: stats) (simp_all add: statStep_distinct)

lemma foldl_statStep_total:
  "totalOf (foldl (statStep byTag domains) stats rows) k
     = totalOf stats k
       + sum_list (map (\<lambda>row. case mappingOfRow byTag row of
                                 Some m \<Rightarrow> rat_of_int (ar_tag_count row) * weightOf m
                               | None \<Rightarrow> 0)
           (filter (contributes byTag k) rows))"
  by (induction rows arbitrary: stats)
     (auto simp: statStep_total contributes_def split: option.splits)

lemma foldl_statStep_assignments_set:
  "set (assignmentsOf (foldl (statStep byTag domains) stats rows) k)
     = set (assignmentsOf stats k)
       \<union> {ar_assignment_id row | row. row \<in> set rows \<and> contributes byTag k row
            \<and> ar_assignment_id row \<noteq> []}"
proof (induction rows arbitrary: stats)
  case Nil
  then show ?case by simp
next
  case (Cons row rows)
  show ?case
    unfolding foldl_Cons Cons.IH statStep_assignments by auto
qed

lemma foldl_statStep_assignments_distinct:
  "distinct (assignmentsOf stats k)
   \<Longrightarrow> distinct (assignmentsOf (foldl (statStep byTag domains) stats rows) k)"
  by (induction rows arbitrary: stats) (simp_all add: statStep_assignments)

lemma foldl_statStep_domains_set:
  "set (domainsOf (foldl (statStep byTag domains) stats rows) k)
     = set (domainsOf stats k)
       \<union> {domainOf domains (ar_assignment_id row) | row. row \<in> set rows
            \<and> contributes byTag k row \<and> ar_assignment_id row \<noteq> []}"
proof (induction rows arbitrary: stats)
  case Nil
  then show ?case by simp
next
  case (Cons row rows)
  show ?case
    unfolding foldl_Cons Cons.IH statStep_domains by auto
qed

lemma foldl_statStep_domains_distinct:
  "distinct (domainsOf stats k)
   \<Longrightarrow> distinct (domainsOf (foldl (statStep byTag domains) stats rows) k)"
  by (induction rows arbitrary: stats) (simp_all add: statStep_domains)

lemma abilityStatsOf_fold:
  "abilityStatsOf t ownerId
     = foldl (statStep (ownerByTag t ownerId) (ownerDomains t ownerId)) [] (ownerAggRows t ownerId)"
  by (simp add: abilityStatsOf_def ownerByTag_def ownerDomains_def ownerAggRows_def Let_def)

lemma abilityByTag_in_set_aux:
  "foldl (\<lambda>m row. case lbl (am_tag_id row) of
                    None \<Rightarrow> m
                  | Some tagNormalized \<Rightarrow> if tagNormalized = [] then m else m(tagNormalized \<mapsto> row))
     m0 mappingRows k = Some mp
   \<Longrightarrow> mp \<in> set mappingRows \<or> m0 k = Some mp"
  by (induction mappingRows arbitrary: m0) (fastforce split: option.splits if_splits)+

lemma abilityByTag_in_set:
  "abilityByTag tagRows mappingRows k = Some mp \<Longrightarrow> mp \<in> set mappingRows"
  unfolding abilityByTag_def using abilityByTag_in_set_aux[of _ Map.empty mappingRows k mp] by auto

text \<open>A \<^verbatim>\<open>null\<close> confidence is turned into the number 0 and weighs 0, not 1.\<close>

lemma weightOf_null: "am_confidence mp = ConfNull \<Longrightarrow> weightOf mp = 0"
  by (simp add: weightOf_def toNumber_def)

lemma weightOf_specWeight:
  "am_confidence mp \<noteq> ConfNull \<Longrightarrow> weightOf mp = specWeight mp"
  by (cases "am_confidence mp") (simp_all add: weightOf_def specWeight_def toNumber_def)

lemma mapped_weight:
  assumes "\<forall>mp \<in> set (ab_mappings t). am_confidence mp \<noteq> ConfNull"
    and "mappingOfRow (ownerByTag t ownerId) row = Some mp"
  shows "weightOf mp = specWeight mp"
proof -
  from assms(2) have "mp \<in> set (filter (\<lambda>row. am_owner_id row = ownerId) (ab_mappings t))"
    by (auto simp: mappingOfRow_def ownerByTag_def Let_def split: if_splits
        dest: abilityByTag_in_set)
  with assms(1) show ?thesis by (simp add: weightOf_specWeight)
qed

lemma abilityStats_total:
  assumes "\<forall>mp \<in> set (ab_mappings t). am_confidence mp \<noteq> ConfNull"
  shows "totalOf (abilityStatsOf t ownerId) k = weightedTotal t ownerId k"
proof -
  let ?rows = "filter (contributes (ownerByTag t ownerId) k) (ownerAggRows t ownerId)"
  have eq: "sum_list (map (\<lambda>row. case mappingOfRow (ownerByTag t ownerId) row of
                      Some m \<Rightarrow> rat_of_int (ar_tag_count row) * weightOf m | None \<Rightarrow> 0) ?rows)
      = sum_list (map (\<lambda>row. case mappingOfRow (ownerByTag t ownerId) row of
                      Some m \<Rightarrow> rat_of_int (ar_tag_count row) * specWeight m | None \<Rightarrow> 0) ?rows)"
  proof (rule arg_cong[where f = sum_list], rule map_cong[OF refl])
    fix row
    show "(case mappingOfRow (ownerByTag t ownerId) row of
             Some m \<Rightarrow> rat_of_int (ar_tag_count row) * weightOf m | None \<Rightarrow> 0)
        = (case mappingOfRow (ownerByTag t ownerId) row of
             Some m \<Rightarrow> rat_of_int (ar_tag_count row) * specWeight m | None \<Rightarrow> 0)"
      using mapped_weight[OF assms] by (auto split: option.splits)
  qed
  have z: "totalOf [] k = 0" by (simp add: totalOf_def)
  show ?thesis
    unfolding abilityStatsOf_fold foldl_statStep_total weightedTotal_def z eq by simp
qed

lemma abilityStats_assignments:
  "distinct (assignmentsOf (abilityStatsOf t ownerId) k)
   \<and> set (assignmentsOf (abilityStatsOf t ownerId) k) = contributingAssignments t ownerId k"
proof -
  have e: "assignmentsOf [] k = []" by (simp add: assignmentsOf_def)
  then have "distinct (assignmentsOf [] k)" by simp
  then have "distinct (assignmentsOf (abilityStatsOf t ownerId) k)"
    unfolding abilityStatsOf_fold by (rule foldl_statStep_assignments_distinct)
  moreover have "set (assignmentsOf (abilityStatsOf t ownerId) k) = contributingAssignments t ownerId k"
    unfolding abilityStatsOf_fold foldl_statStep_assignments_set contributingAssignments_def e
    by simp
  ultimately show ?thesis by simp
qed

lemma abilityStats_domains:
  "distinct (domainsOf (abilityStatsOf t ownerId) k)
   \<and> set (domainsOf (abilityStatsOf t ownerId) k) = contributingDomains t ownerId k"
proof -
  have e: "domainsOf [] k = []" by (simp add: domainsOf_def)
  then have "distinct (domainsOf [] k)" by simp
  then have "distinct (domainsOf (abilityStatsOf t ownerId) k)"
    unfolding abilityStatsOf_fold by (rule foldl_statStep_domains_distinct)
  moreover have "set (domainsOf (abilityStatsOf t ownerId) k) = contributingDomains t ownerId k"
    unfolding abilityStatsOf_fold foldl_statStep_domains_set contributingDomains_def e
    by simp
  ultimately show ?thesis by simp
qed

lemma abilityStats_distinct: "distinct (map fst (abilityStatsOf t ownerId))"
  unfolding abilityStatsOf_fold by (rule foldl_statStep_distinct) simp

lemma abilityStats_keys:
  "fst ` set (abilityStatsOf t ownerId)
     = {k. \<exists>row \<in> set (ownerAggRows t ownerId). contributes (ownerByTag t ownerId) k row}"
  unfolding abilityStatsOf_fold foldl_statStep_keys by simp

lemma abilityRows_ids:
  "map aa_ability_id (abilityRows ownerId nowIso stats) = map fst stats"
  by (induction stats) (auto simp: abilityRows_def)

lemma abilityRows_row:
  assumes "row \<in> set (abilityRows ownerId nowIso stats)" and "distinct (map fst stats)"
  shows "aa_owner_id row = ownerId
       \<and> aa_total_count row = max 1 (jsRound (totalOf stats (aa_ability_id row)))
       \<and> aa_assignment_count row = length (assignmentsOf stats (aa_ability_id row))
       \<and> aa_domain_count row = length (domainsOf stats (aa_ability_id row))"
proof -
  from assms(1) obtain k tot assignments doms where
    e: "(k, tot, assignments, doms) \<in> set stats" and
    r: "row = \<lparr> aa_owner_id = ownerId, aa_ability_id = k, aa_total_count = max 1 (jsRound tot),
                aa_assignment_count = length assignments, aa_domain_count = length doms,
                aa_generated_at = nowIso \<rparr>"
    by (auto simp: abilityRows_def)
  from e assms(2) have "map_of stats k = Some (tot, assignments, doms)" by simp
  with r show ?thesis
    by (simp add: totalOf_def assignmentsOf_def domainsOf_def)
qed

lemma refresh_written_rows:
  assumes "ownerId \<noteq> []"
    and "fault AbMappingSelect = None" and "fault AbTagSelect = None"
    and "fault AbAggSelect = None" and "fault AbAssignmentSelect = None"
    and "fault AbDelete = None" and "fault AbInsert = None"
  shows "fst (refreshAbilityAggregates fault t ownerId nowIso) = None
    \<and> filter (\<lambda>r. aa_owner_id r = ownerId)
          (ab_ability_aggregates (snd (refreshAbilityAggregates fault t ownerId nowIso)))
        = abilityRows ownerId nowIso (abilityStatsOf t ownerId)"
proof -
  have own: "filter (\<lambda>r. aa_owner_id r = ownerId) (abilityRows ownerId nowIso stats)
      = abilityRows ownerId nowIso stats" for stats
    by (induction stats) (auto simp: abilityRows_def)
  have none: "filter (\<lambda>r. aa_owner_id r = ownerId)
      (filter (\<lambda>r. aa_owner_id r \<noteq> ownerId) xs) = []" for xs :: "ability_agg list"
    by (induction xs) auto
  show ?thesis
  proof (cases "abilityStatsOf t ownerId = []")
    case True
    with assms show ?thesis
      by (simp add: refreshAbilityAggregates_def Let_def none abilityRows_def)
  next
    case False
    with assms show ?thesis
      by (simp add: refreshAbilityAggregates_def Let_def none own)
  qed
qed


lemma exampleAbility_rows:
  "map (\<lambda>r. (aa_ability_id r, aa_total_count r, aa_assignment_count r, aa_domain_count r))
     (filter (\<lambda>r. aa_owner_id r = ''o'')
        (ab_ability_aggregates (snd (refreshAbilityAggregates noFaults exampleAbilityTables ''o'' 9))))
     = [(7, 2, 1, 1)]"
  by code_simp

lemma exampleAbility_row:
  "filter (\<lambda>r. aa_owner_id r = ''o'')
        (ab_ability_aggregates (snd (refreshAbilityAggregates noFaults exampleAbilityTables ''o'' 9)))
     = [\<lparr> aa_owner_id = ''o'', aa_ability_id = 7, aa_total_count = 2, aa_assignment_count = 1,
          aa_domain_count = 1, aa_generated_at = 9 \<rparr>]"
  by code_simp


section \<open>Properties of the rows a clustering run writes\<close>

lemma finalize_aggregates:
  "db_aggregates (snd (finalizeAssignmentTagState fault d ownerId a nowIso n model pv)) = db_aggregates d"
  by (simp add: finalizeAssignmentTagState_def Let_def split: option.splits)

lemma touchDictionaryMergeState_aggregates:
  "db_aggregates (snd (touchDictionaryMergeState fault d ownerId nowIso)) = db_aggregates d"
  by (simp add: touchDictionaryMergeState_def split: option.splits)

lemma replaceAggregates_aggregates:
  "db_aggregates (snd (replaceAggregates None None d ownerId a rows)) = otherRows d ownerId a @ rows"
  by (simp add: replaceAggregates_def insertAggregates_def deleteAggregates_def)

lemma otherRows_cong: "db_aggregates d = db_aggregates d' \<Longrightarrow> otherRows d ownerId a = otherRows d' ownerId a"
  by (simp add: otherRows_def)

lemma writeTags_scope:
  assumes "writeTags fault nowIso d ownerId a sampleCount tags = (Inr r, d')"
    and "fault AggDelete = None"
  shows "r = (RunReady, sampleCount)
    \<and> scopeRows d' ownerId a = aggregateRows ownerId a nowIso TAG_MODEL TAG_PROMPT_VERSION tags"
proof -
  let ?rows = "aggregateRows ownerId a nowIso TAG_MODEL TAG_PROMPT_VERSION tags"
  define newRows where "newRows =
    newDictionaryRows (map dictKey (filter (\<lambda>row. de_owner_id row = ownerId \<and> de_status row = Active)
      (db_dictionary d))) ownerId nowIso tags"
  define ins where "ins =
    (if length newRows > 0
     then (case fault DictionaryInsert of
             Some e \<Rightarrow> (Some e, d)
           | None \<Rightarrow> touchDictionaryMergeState fault
                       (d\<lparr> db_dictionary := insertDictionaryRows (db_dictionary d) newRows \<rparr>)
                       ownerId nowIso)
     else (None, d))"
  have w: "writeTags fault nowIso d ownerId a sampleCount tags =
    (case ins of
       (Some e, d1) \<Rightarrow> (Inl e, d1)
     | (None, d1) \<Rightarrow>
         (case replaceAggregates (fault AggDelete) (fault AggInsert) d1 ownerId a ?rows of
            (Some e, d2) \<Rightarrow> (Inl e, d2)
          | (None, d2) \<Rightarrow>
              (case finalizeAssignmentTagState fault d2 ownerId a nowIso sampleCount
                      TAG_MODEL TAG_PROMPT_VERSION of
                 (Some e, d3) \<Rightarrow> (Inl e, d3)
               | (None, d3) \<Rightarrow> (Inr (RunReady, sampleCount), d3))))"
    unfolding writeTags_def Let_def ins_def newRows_def by (rule refl)
  obtain eo d1 where i: "ins = (eo, d1)" by (cases ins)
  have "db_aggregates (snd ins) = db_aggregates d"
    unfolding ins_def by (simp add: touchDictionaryMergeState_aggregates split: option.splits)
  with i have a1: "db_aggregates d1 = db_aggregates d" by simp
  obtain e2 d2 where r2:
    "replaceAggregates (fault AggDelete) (fault AggInsert) d1 ownerId a ?rows = (e2, d2)"
    by fastforce
  obtain e3 d3 where r3:
    "finalizeAssignmentTagState fault d2 ownerId a nowIso sampleCount TAG_MODEL TAG_PROMPT_VERSION
       = (e3, d3)"
    by fastforce
  from assms(1) have res: "eo = None \<and> e2 = None \<and> e3 = None \<and> d' = d3 \<and> r = (RunReady, sampleCount)"
    unfolding w i by (auto simp: r2 r3 split: option.splits)
  from r2 res have ai: "fault AggInsert = None"
    using replaceAggregates_error[of "fault AggDelete" "fault AggInsert" d1 ownerId a ?rows] by simp
  from r2 ai assms(2) have "db_aggregates d2 = otherRows d1 ownerId a @ ?rows"
    using replaceAggregates_aggregates[of d1 ownerId a ?rows] by simp
  moreover from r3 have "db_aggregates d3 = db_aggregates d2"
    using finalize_aggregates[of fault d2 ownerId a nowIso sampleCount TAG_MODEL TAG_PROMPT_VERSION]
    by simp
  ultimately have "db_aggregates d' = otherRows d1 ownerId a @ ?rows"
    using res by simp
  then have "scopeRows d' ownerId a = ?rows"
    by (simp add: scopeRows_def otherRows_def filter_sameScope_aggregateRows)
  with res show ?thesis by simp
qed

lemma updateState_submissions [simp]:
  "db_submissions (updateState d key f) = db_submissions d"
  by (simp add: updateState_def split: option.splits)

lemma runAggregation_rows:
  assumes "runAggregation fault llm nowIso d ownerId a = (Inr (RunReady, n), d')"
    and "fault AggDelete = None" and "fault EmptyAggDelete = None"
  shows "n = int (length (gradedSubmissions
               (filter (\<lambda>row. sub_owner_id row = ownerId \<and> sub_assignment_id row = a)
                  (db_submissions d))))
    \<and> length (scopeRows d' ownerId a) \<le> 8
    \<and> (\<forall>r \<in> set (scopeRows d' ownerId a). ar_tag_count r \<le> n)"
proof -
  let ?graded = "gradedSubmissions
      (filter (\<lambda>row. sub_owner_id row = ownerId \<and> sub_assignment_id row = a) (db_submissions d))"
  let ?n = "int (length ?graded)"
  from assms(1) have big: "\<not> ?n < int TAG_MIN_SAMPLE_COUNT" and sel: "fault SubmissionsSelect = None"
    unfolding runAggregation_def Let_def by (auto split: option.splits if_splits)
  show ?thesis
  proof (cases "length (issueStats ?graded) = 0")
    case True
    with assms(1) big sel obtain e where
      f: "finalizeAssignmentTagState fault (deleteAggregates (fault EmptyAggDelete) d ownerId a)
            ownerId a nowIso ?n TAG_MODEL TAG_PROMPT_VERSION = (e, d')" and n: "n = ?n"
      unfolding runAggregation_def Let_def by (auto split: option.splits prod.splits)
    from f have "db_aggregates d' = db_aggregates (deleteAggregates (fault EmptyAggDelete) d ownerId a)"
      using finalize_aggregates[of fault "deleteAggregates (fault EmptyAggDelete) d ownerId a"
          ownerId a nowIso ?n TAG_MODEL TAG_PROMPT_VERSION] by simp
    with assms(3) have "scopeRows d' ownerId a = []"
      by (simp add: scopeRows_def deleteAggregates_def otherRows_def)
    with n show ?thesis by simp
  next
    case False
    with assms(1) big sel obtain rawTags where
      w: "writeTags fault nowIso d ownerId a ?n (normalizedTags ?n rawTags) = (Inr (RunReady, n), d')"
      unfolding runAggregation_def Let_def by (auto split: option.splits sum.splits if_splits)
    from writeTags_scope[OF w assms(2)]
    have n: "n = ?n" and rows: "scopeRows d' ownerId a
        = aggregateRows ownerId a nowIso TAG_MODEL TAG_PROMPT_VERSION (normalizedTags ?n rawTags)"
      by simp_all
    have "length (scopeRows d' ownerId a) \<le> 8"
      unfolding rows by (simp add: aggregateRows_def normalizedTags_length)
    moreover have "\<forall>r \<in> set (scopeRows d' ownerId a). ar_tag_count r \<le> ?n"
      unfolding rows by (auto simp: aggregateRows_def dest: normalizedTags_count_le)
    ultimately show ?thesis using n by simp
  qed
qed

lemma aggregateAssignmentTags_rows:
  assumes "aggregateAssignmentTags fault llm nowIso d stateRow = (Inr (RunReady, n), d')"
    and "fault AggDelete = None" and "fault EmptyAggDelete = None"
  shows "n = int (length (gradedSubmissions
               (filter (\<lambda>row. sub_owner_id row = st_owner_id stateRow
                             \<and> sub_assignment_id row = st_assignment_id stateRow)
                  (db_submissions d))))
    \<and> length (scopeRows d' (st_owner_id stateRow) (st_assignment_id stateRow)) \<le> 8
    \<and> (\<forall>r \<in> set (scopeRows d' (st_owner_id stateRow) (st_assignment_id stateRow)).
          ar_tag_count r \<le> n)"
proof -
  let ?d1 = "updateState d (st_owner_id stateRow, st_assignment_id stateRow)
               (\<lambda>st. st\<lparr> st_status := Running, st_updated_at := Some nowIso \<rparr>)"
  from assms(1) have "runAggregation fault llm nowIso ?d1 (st_owner_id stateRow)
      (st_assignment_id stateRow) = (Inr (RunReady, n), d')"
    unfolding aggregateAssignmentTags_def Let_def by (auto split: option.splits if_splits)
  from runAggregation_rows[OF this assms(2,3)] show ?thesis
    unfolding updateState_submissions .
qed

lemma replaceAggregates_any:
  "db_aggregates (snd (replaceAggregates deleteError insertError d ownerId a rows))
     = (case deleteError of None \<Rightarrow> otherRows d ownerId a | Some _ \<Rightarrow> db_aggregates d)
       @ (case insertError of None \<Rightarrow> rows | Some _ \<Rightarrow> [])"
  by (simp add: replaceAggregates_def insertAggregates_def deleteAggregates_def split: option.splits)

lemma writeTags_aggregates:
  "db_aggregates (snd (writeTags fault nowIso d ownerId a n tags)) = db_aggregates d
   \<or> db_aggregates (snd (writeTags fault nowIso d ownerId a n tags))
       = (case fault AggDelete of None \<Rightarrow> otherRows d ownerId a | Some _ \<Rightarrow> db_aggregates d)
         @ (case fault AggInsert of
              None \<Rightarrow> aggregateRows ownerId a nowIso TAG_MODEL TAG_PROMPT_VERSION tags
            | Some _ \<Rightarrow> [])"
proof -
  let ?rows = "aggregateRows ownerId a nowIso TAG_MODEL TAG_PROMPT_VERSION tags"
  define newRows where "newRows =
    newDictionaryRows (map dictKey (filter (\<lambda>row. de_owner_id row = ownerId \<and> de_status row = Active)
      (db_dictionary d))) ownerId nowIso tags"
  define ins where "ins =
    (if length newRows > 0
     then (case fault DictionaryInsert of
             Some e \<Rightarrow> (Some e, d)
           | None \<Rightarrow> touchDictionaryMergeState fault
                       (d\<lparr> db_dictionary := insertDictionaryRows (db_dictionary d) newRows \<rparr>)
                       ownerId nowIso)
     else (None, d))"
  have w: "writeTags fault nowIso d ownerId a n tags =
    (case ins of
       (Some e, d1) \<Rightarrow> (Inl e, d1)
     | (None, d1) \<Rightarrow>
         (case replaceAggregates (fault AggDelete) (fault AggInsert) d1 ownerId a ?rows of
            (Some e, d2) \<Rightarrow> (Inl e, d2)
          | (None, d2) \<Rightarrow>
              (case finalizeAssignmentTagState fault d2 ownerId a nowIso n
                      TAG_MODEL TAG_PROMPT_VERSION of
                 (Some e, d3) \<Rightarrow> (Inl e, d3)
               | (None, d3) \<Rightarrow> (Inr (RunReady, n), d3))))"
    unfolding writeTags_def Let_def ins_def newRows_def by (rule refl)
  obtain eo d1 where i: "ins = (eo, d1)" by (cases ins)
  have "db_aggregates (snd ins) = db_aggregates d"
    unfolding ins_def by (simp add: touchDictionaryMergeState_aggregates split: option.splits)
  with i have a1: "db_aggregates d1 = db_aggregates d" by simp
  obtain e2 d2 where r2:
    "replaceAggregates (fault AggDelete) (fault AggInsert) d1 ownerId a ?rows = (e2, d2)"
    by fastforce
  obtain e3 d3 where r3:
    "finalizeAssignmentTagState fault d2 ownerId a nowIso n TAG_MODEL TAG_PROMPT_VERSION = (e3, d3)"
    by fastforce
  have a2: "db_aggregates d2
      = (case fault AggDelete of None \<Rightarrow> otherRows d ownerId a | Some _ \<Rightarrow> db_aggregates d)
        @ (case fault AggInsert of None \<Rightarrow> ?rows | Some _ \<Rightarrow> [])"
    using replaceAggregates_any[of "fault AggDelete" "fault AggInsert" d1 ownerId a ?rows]
      r2 a1 otherRows_cong[OF a1, of ownerId a] by (simp split: option.splits)
  have a3: "db_aggregates d3 = db_aggregates d2"
    using finalize_aggregates[of fault d2 ownerId a nowIso n TAG_MODEL TAG_PROMPT_VERSION] r3
    by simp
  have "snd (writeTags fault nowIso d ownerId a n tags) = d1
      \<or> snd (writeTags fault nowIso d ownerId a n tags) = d2
      \<or> snd (writeTags fault nowIso d ownerId a n tags) = d3"
    unfolding w i by (simp add: r2 r3 split: option.splits)
  with a1 a2 a3 show ?thesis by auto
qed

lemma db_aggregates_deleteAggregates:
  "db_aggregates (deleteAggregates deleteError d ownerId a)
     = (case deleteError of None \<Rightarrow> otherRows d ownerId a | Some _ \<Rightarrow> db_aggregates d)"
  by (simp add: deleteAggregates_def split: option.splits)

lemma runAggregation_aggregates:
  "db_aggregates (snd (runAggregation fault llm nowIso d ownerId a)) = db_aggregates d
   \<or> db_aggregates (snd (runAggregation fault llm nowIso d ownerId a)) = otherRows d ownerId a
   \<or> (\<exists>rawTags. llm = Inr rawTags
        \<and> db_aggregates (snd (runAggregation fault llm nowIso d ownerId a))
            = (case fault AggDelete of None \<Rightarrow> otherRows d ownerId a | Some _ \<Rightarrow> db_aggregates d)
              @ (case fault AggInsert of
                   None \<Rightarrow> aggregateRows ownerId a nowIso TAG_MODEL TAG_PROMPT_VERSION
                     (normalizedTags
                        (int (length (gradedSubmissions
                           (filter (\<lambda>row. sub_owner_id row = ownerId \<and> sub_assignment_id row = a)
                              (db_submissions d)))))
                        rawTags)
                 | Some _ \<Rightarrow> []))"
proof -
  let ?graded = "gradedSubmissions
      (filter (\<lambda>row. sub_owner_id row = ownerId \<and> sub_assignment_id row = a) (db_submissions d))"
  let ?n = "int (length ?graded)"
  let ?run = "runAggregation fault llm nowIso d ownerId a"
  have "db_aggregates (snd ?run) = db_aggregates d
      \<or> db_aggregates (snd ?run) = db_aggregates (snd (finalizeAssignmentTagState fault
          (deleteAggregates (fault EmptyAggDelete) d ownerId a) ownerId a nowIso ?n
          TAG_MODEL TAG_PROMPT_VERSION))
      \<or> (\<exists>rawTags. llm = Inr rawTags
          \<and> db_aggregates (snd ?run)
              = db_aggregates (snd (writeTags fault nowIso d ownerId a ?n (normalizedTags ?n rawTags))))"
    unfolding runAggregation_def Let_def
    by (auto split: option.splits sum.splits prod.splits if_splits)
  then show ?thesis
  proof (elim disjE exE conjE)
    assume "db_aggregates (snd ?run) = db_aggregates d"
    then show ?thesis by simp
  next
    assume "db_aggregates (snd ?run) = db_aggregates (snd (finalizeAssignmentTagState fault
          (deleteAggregates (fault EmptyAggDelete) d ownerId a) ownerId a nowIso ?n
          TAG_MODEL TAG_PROMPT_VERSION))"
    then show ?thesis
      by (auto simp: finalize_aggregates db_aggregates_deleteAggregates split: option.splits)
  next
    fix rawTags
    assume "llm = Inr rawTags" and "db_aggregates (snd ?run)
              = db_aggregates (snd (writeTags fault nowIso d ownerId a ?n (normalizedTags ?n rawTags)))"
    with writeTags_aggregates[of fault nowIso d ownerId a ?n "normalizedTags ?n rawTags"]
    show ?thesis by auto
  qed
qed

lemma otherRows_updateState [simp]: "otherRows (updateState d key f) ownerId a = otherRows d ownerId a"
  by (simp add: otherRows_def)

lemma scopeRows_updateState [simp]: "scopeRows (updateState d key f) ownerId a = scopeRows d ownerId a"
  by (simp add: scopeRows_def)

lemma aggregateAssignmentTags_aggregates:
  "db_aggregates (snd (aggregateAssignmentTags fault llm nowIso d stateRow)) = db_aggregates d
   \<or> db_aggregates (snd (aggregateAssignmentTags fault llm nowIso d stateRow))
       = otherRows d (st_owner_id stateRow) (st_assignment_id stateRow)
   \<or> (\<exists>rawTags. llm = Inr rawTags
        \<and> db_aggregates (snd (aggregateAssignmentTags fault llm nowIso d stateRow))
            = (case fault AggDelete of
                 None \<Rightarrow> otherRows d (st_owner_id stateRow) (st_assignment_id stateRow)
               | Some _ \<Rightarrow> db_aggregates d)
              @ (case fault AggInsert of
                   None \<Rightarrow> aggregateRows (st_owner_id stateRow) (st_assignment_id stateRow) nowIso
                     TAG_MODEL TAG_PROMPT_VERSION
                     (normalizedTags
                        (int (length (gradedSubmissions
                           (filter (\<lambda>row. sub_owner_id row = st_owner_id stateRow
                                         \<and> sub_assignment_id row = st_assignment_id stateRow)
                              (db_submissions d)))))
                        rawTags)
                 | Some _ \<Rightarrow> []))"
proof -
  let ?o = "st_owner_id stateRow" and ?a = "st_assignment_id stateRow"
  let ?d1 = "updateState d (?o, ?a) (\<lambda>st. st\<lparr> st_status := Running, st_updated_at := Some nowIso \<rparr>)"
  let ?run = "aggregateAssignmentTags fault llm nowIso d stateRow"
  have "db_aggregates (snd ?run) = db_aggregates d
      \<or> snd ?run = snd (runAggregation fault llm nowIso ?d1 ?o ?a)"
    unfolding aggregateAssignmentTags_def Let_def
    by (auto split: option.splits)
  then show ?thesis
  proof
    assume "db_aggregates (snd ?run) = db_aggregates d"
    then show ?thesis by simp
  next
    assume r: "snd ?run = snd (runAggregation fault llm nowIso ?d1 ?o ?a)"
    from runAggregation_aggregates[of fault llm nowIso ?d1 ?o ?a,
        unfolded otherRows_updateState db_aggregates_updateState updateState_submissions]
    show ?thesis unfolding r .
  qed
qed

lemma sweepStep_aggregates:
  "db_aggregates (snd (sweepStep fault llm nowIso d stateRow))
     = db_aggregates (snd (aggregateAssignmentTags fault llm nowIso d stateRow))"
  by (auto simp: sweepStep_def split: prod.splits sum.splits option.splits)

lemma gradedSubmissions_explicit:
  "gradedSubmissions (filter (\<lambda>row. sub_owner_id row = ownerId \<and> sub_assignment_id row = a) xs)
     = filter (\<lambda>row. sub_owner_id row = ownerId \<and> sub_assignment_id row = a
                \<and> (sub_grading_result row \<noteq> GrNull \<or> sub_status row = Some ''graded'')) xs"
  by (simp add: gradedSubmissions_def conj_commute conj_left_commute)

lemma writeTags_reached:
  assumes "fault DictionaryInsert = None" and "fault MergeStateUpsert = None"
    and "fault AggDelete = None"
  shows "db_aggregates (snd (writeTags fault nowIso d ownerId a n tags))
       = otherRows d ownerId a
         @ (case fault AggInsert of
              None \<Rightarrow> aggregateRows ownerId a nowIso TAG_MODEL TAG_PROMPT_VERSION tags
            | Some _ \<Rightarrow> [])"
    and "fault AggInsert = Some e \<Longrightarrow> fst (writeTags fault nowIso d ownerId a n tags) = Inl e"
proof -
  let ?rows = "aggregateRows ownerId a nowIso TAG_MODEL TAG_PROMPT_VERSION tags"
  define newRows where "newRows =
    newDictionaryRows (map dictKey (filter (\<lambda>row. de_owner_id row = ownerId \<and> de_status row = Active)
      (db_dictionary d))) ownerId nowIso tags"
  define ins where "ins =
    (if length newRows > 0
     then (case fault DictionaryInsert of
             Some e \<Rightarrow> (Some e, d)
           | None \<Rightarrow> touchDictionaryMergeState fault
                       (d\<lparr> db_dictionary := insertDictionaryRows (db_dictionary d) newRows \<rparr>)
                       ownerId nowIso)
     else (None, d))"
  have w: "writeTags fault nowIso d ownerId a n tags =
    (case ins of
       (Some e, d1) \<Rightarrow> (Inl e, d1)
     | (None, d1) \<Rightarrow>
         (case replaceAggregates (fault AggDelete) (fault AggInsert) d1 ownerId a ?rows of
            (Some e, d2) \<Rightarrow> (Inl e, d2)
          | (None, d2) \<Rightarrow>
              (case finalizeAssignmentTagState fault d2 ownerId a nowIso n
                      TAG_MODEL TAG_PROMPT_VERSION of
                 (Some e, d3) \<Rightarrow> (Inl e, d3)
               | (None, d3) \<Rightarrow> (Inr (RunReady, n), d3))))"
    unfolding writeTags_def Let_def ins_def newRows_def by (rule refl)
  obtain eo d1 where i: "ins = (eo, d1)" by (cases ins)
  have "fst ins = None"
    unfolding ins_def using assms(1,2) by (simp add: touchDictionaryMergeState_def)
  with i have eo: "eo = None" by simp
  have "db_aggregates (snd ins) = db_aggregates d"
    unfolding ins_def by (simp add: touchDictionaryMergeState_aggregates split: option.splits)
  with i have a1: "db_aggregates d1 = db_aggregates d" by simp
  obtain e2 d2 where r2:
    "replaceAggregates (fault AggDelete) (fault AggInsert) d1 ownerId a ?rows = (e2, d2)"
    by fastforce
  obtain e3 d3 where r3:
    "finalizeAssignmentTagState fault d2 ownerId a nowIso n TAG_MODEL TAG_PROMPT_VERSION = (e3, d3)"
    by fastforce
  have e2: "e2 = fault AggInsert"
    using replaceAggregates_error[of "fault AggDelete" "fault AggInsert" d1 ownerId a ?rows] r2
    by simp
  have a2: "db_aggregates d2
      = otherRows d ownerId a @ (case fault AggInsert of None \<Rightarrow> ?rows | Some _ \<Rightarrow> [])"
    using replaceAggregates_any[of "fault AggDelete" "fault AggInsert" d1 ownerId a ?rows]
      r2 assms(3) otherRows_cong[OF a1, of ownerId a] by simp
  have a3: "db_aggregates d3 = db_aggregates d2"
    using finalize_aggregates[of fault d2 ownerId a nowIso n TAG_MODEL TAG_PROMPT_VERSION] r3
    by simp
  have "snd (writeTags fault nowIso d ownerId a n tags) = d2
      \<or> snd (writeTags fault nowIso d ownerId a n tags) = d3"
    unfolding w i eo by (simp add: r2 r3 split: option.splits)
  with a2 a3 show "db_aggregates (snd (writeTags fault nowIso d ownerId a n tags))
       = otherRows d ownerId a @ (case fault AggInsert of None \<Rightarrow> ?rows | Some _ \<Rightarrow> [])"
    by auto
  show "fst (writeTags fault nowIso d ownerId a n tags) = Inl e" if ai: "fault AggInsert = Some e"
  proof -
    from e2 ai have s: "e2 = Some e" by simp
    have "writeTags fault nowIso d ownerId a n tags = (Inl e, d2)"
      unfolding w i eo by (simp add: r2 s)
    then show ?thesis by simp
  qed
qed

lemma scopeRows_other_append:
  "db_aggregates d' = otherRows d ownerId a @ rows
   \<Longrightarrow> scopeRows d' ownerId a = filter (sameScope ownerId a) rows"
  by (simp add: scopeRows_def otherRows_def)

lemma otherRows_of_append:
  "db_aggregates d' = base @ aggregateRows ownerId a nowIso model pv tags
   \<Longrightarrow> otherRows d' ownerId a = filter (\<lambda>r. \<not> sameScope ownerId a r) base"
  by (simp add: otherRows_def filter_notScope_aggregateRows)

lemma sweepStep_reached:
  assumes "st_owner_id stateRow \<noteq> []" and "\<not> st_manual_locked stateRow"
    and "fault AssignmentSelect = None" and "fault RunningUpdate = None"
    and "fault SubmissionsSelect = None" and "fault DictionarySelect = None"
    and "\<not> int (length (gradedSubmissions (filter (\<lambda>row. sub_owner_id row = st_owner_id stateRow
                 \<and> sub_assignment_id row = st_assignment_id stateRow) (db_submissions d))))
            < int TAG_MIN_SAMPLE_COUNT"
    and "issueStats (gradedSubmissions (filter (\<lambda>row. sub_owner_id row = st_owner_id stateRow
                 \<and> sub_assignment_id row = st_assignment_id stateRow) (db_submissions d))) \<noteq> []"
    and "llm = Inr rawTags"
    and "normalizedTags (int (length (gradedSubmissions (filter (\<lambda>row. sub_owner_id row = st_owner_id stateRow
                 \<and> sub_assignment_id row = st_assignment_id stateRow) (db_submissions d))))) rawTags \<noteq> []"
  shows "aggregateAssignmentTags fault llm nowIso d stateRow
     = writeTags fault nowIso
         (updateState d (st_owner_id stateRow, st_assignment_id stateRow)
            (\<lambda>st. st\<lparr> st_status := Running, st_updated_at := Some nowIso \<rparr>))
         (st_owner_id stateRow) (st_assignment_id stateRow)
         (int (length (gradedSubmissions (filter (\<lambda>row. sub_owner_id row = st_owner_id stateRow
                 \<and> sub_assignment_id row = st_assignment_id stateRow) (db_submissions d)))))
         (normalizedTags (int (length (gradedSubmissions (filter (\<lambda>row. sub_owner_id row = st_owner_id stateRow
                 \<and> sub_assignment_id row = st_assignment_id stateRow) (db_submissions d))))) rawTags)"
  using assms unfolding aggregateAssignmentTags_def runAggregation_def Let_def
  by simp

lemma sweepStep_fst:
  "fst (sweepStep fault llm nowIso d stateRow) = fst (aggregateAssignmentTags fault llm nowIso d stateRow)"
  by (auto simp: sweepStep_def split: prod.splits sum.splits option.splits)

lemma aggregateRows_bounded:
  "length (aggregateRows ownerId a nowIso model pv (normalizedTags n rawTags)) \<le> 8
   \<and> (\<forall>r \<in> set (aggregateRows ownerId a nowIso model pv (normalizedTags n rawTags)).
         ar_owner_id r = ownerId \<and> ar_assignment_id r = a \<and> ar_tag_count r \<le> n)
   \<and> sorted (map (\<lambda>r. - ar_tag_count r)
        (aggregateRows ownerId a nowIso model pv (normalizedTags n rawTags)))"
proof -
  let ?rows = "aggregateRows ownerId a nowIso model pv (normalizedTags n rawTags)"
  have len: "length ?rows \<le> 8"
    by (simp add: aggregateRows_def normalizedTags_length)
  have cnt: "\<forall>r \<in> set ?rows. ar_owner_id r = ownerId \<and> ar_assignment_id r = a \<and> ar_tag_count r \<le> n"
    by (auto simp: aggregateRows_def dest: normalizedTags_count_le)
  have "map (\<lambda>r. - ar_tag_count r) ?rows = map (\<lambda>t. - nt_count t) (normalizedTags n rawTags)"
    by (simp add: aggregateRows_def comp_def)
  then have srt: "sorted (map (\<lambda>r. - ar_tag_count r) ?rows)"
    by (simp add: normalizedTags_sorted)
  from len cnt srt show ?thesis by blast
qed

lemma run_written:
  "\<exists>base written.
      db_aggregates (snd (aggregateAssignmentTags fault llm nowIso d stateRow)) = base @ written
    \<and> (base = db_aggregates d
        \<or> base = otherRows d (st_owner_id stateRow) (st_assignment_id stateRow))
    \<and> (written = []
        \<or> (\<exists>rawTags. llm = Inr rawTags \<and> fault AggInsert = None
             \<and> written = aggregateRows (st_owner_id stateRow) (st_assignment_id stateRow) nowIso
                 TAG_MODEL TAG_PROMPT_VERSION
                 (normalizedTags
                    (int (length (filter (\<lambda>row. sub_owner_id row = st_owner_id stateRow
                                   \<and> sub_assignment_id row = st_assignment_id stateRow
                                   \<and> (sub_grading_result row \<noteq> GrNull
                                        \<or> sub_status row = Some ''graded''))
                            (db_submissions d))))
                    rawTags)))
    \<and> (fault AggDelete = None \<and> written \<noteq> []
        \<longrightarrow> base = otherRows d (st_owner_id stateRow) (st_assignment_id stateRow))"
proof -
  let ?o = "st_owner_id stateRow" and ?a = "st_assignment_id stateRow"
  let ?A' = "db_aggregates (snd (aggregateAssignmentTags fault llm nowIso d stateRow))"
  from aggregateAssignmentTags_aggregates[of fault llm nowIso d stateRow,
      unfolded gradedSubmissions_explicit]
  consider (old) "?A' = db_aggregates d" | (gone) "?A' = otherRows d ?o ?a"
    | (model) rawTags where "llm = Inr rawTags"
      "?A' = (case fault AggDelete of None \<Rightarrow> otherRows d ?o ?a | Some _ \<Rightarrow> db_aggregates d)
              @ (case fault AggInsert of
                   None \<Rightarrow> aggregateRows ?o ?a nowIso TAG_MODEL TAG_PROMPT_VERSION
                     (normalizedTags
                        (int (length (filter (\<lambda>row. sub_owner_id row = ?o \<and> sub_assignment_id row = ?a
                                   \<and> (sub_grading_result row \<noteq> GrNull
                                        \<or> sub_status row = Some ''graded''))
                            (db_submissions d))))
                        rawTags)
                 | Some _ \<Rightarrow> [])"
    by blast
  then show ?thesis
  proof cases
    case old
    show ?thesis
      by (rule exI[of _ "db_aggregates d"], rule exI[of _ "[]"]) (simp add: old)
  next
    case gone
    show ?thesis
      by (rule exI[of _ "otherRows d ?o ?a"], rule exI[of _ "[]"]) (simp add: gone)
  next
    case model
    show ?thesis
      apply (rule exI[of _ "case fault AggDelete of None \<Rightarrow> otherRows d ?o ?a | Some _ \<Rightarrow> db_aggregates d"])
      apply (rule exI[of _ "case fault AggInsert of
                   None \<Rightarrow> aggregateRows ?o ?a nowIso TAG_MODEL TAG_PROMPT_VERSION
                     (normalizedTags
                        (int (length (filter (\<lambda>row. sub_owner_id row = ?o \<and> sub_assignment_id row = ?a
                                   \<and> (sub_grading_result row \<noteq> GrNull
                                        \<or> sub_status row = Some ''graded''))
                            (db_submissions d))))
                        rawTags)
                 | Some _ \<Rightarrow> []"])
      using model by (simp split: option.splits)
  qed
qed

lemma otherRows_base:
  assumes "db_aggregates d' = base @ written"
    and "base = db_aggregates d \<or> base = otherRows d ownerId a"
    and "\<forall>r \<in> set written. sameScope ownerId a r"
  shows "otherRows d' ownerId a = otherRows d ownerId a"
proof -
  from assms(3) have "filter (\<lambda>r. \<not> sameScope ownerId a r) written = []"
    by (simp add: filter_empty_conv)
  with assms(1,2) show ?thesis
    by (auto simp: otherRows_def)
qed

lemma scopeRows_base:
  assumes "db_aggregates d' = otherRows d ownerId a @ written"
    and "\<forall>r \<in> set written. sameScope ownerId a r"
  shows "scopeRows d' ownerId a = written"
proof -
  from assms(2) have "filter (sameScope ownerId a) written = written"
    by (simp add: filter_id_conv)
  with assms(1) show ?thesis
    by (simp add: scopeRows_def otherRows_def)
qed

lemma sameScope_aggregateRows:
  "\<forall>r \<in> set (aggregateRows ownerId a nowIso model pv tags). sameScope ownerId a r"
  by (simp add: aggregateRows_def sameScope_def)

lemma run_other_rows:
  "otherRows (snd (aggregateAssignmentTags fault llm nowIso d stateRow))
       (st_owner_id stateRow) (st_assignment_id stateRow)
     = otherRows d (st_owner_id stateRow) (st_assignment_id stateRow)"
proof -
  from run_written[of fault llm nowIso d stateRow] obtain base written where
    t: "db_aggregates (snd (aggregateAssignmentTags fault llm nowIso d stateRow)) = base @ written"
    and b: "base = db_aggregates d
        \<or> base = otherRows d (st_owner_id stateRow) (st_assignment_id stateRow)"
    and w: "written = [] \<or> (\<exists>tags. written = aggregateRows (st_owner_id stateRow)
        (st_assignment_id stateRow) nowIso TAG_MODEL TAG_PROMPT_VERSION tags)"
    by blast
  from w have "\<forall>r \<in> set written. sameScope (st_owner_id stateRow) (st_assignment_id stateRow) r"
    using sameScope_aggregateRows by fastforce
  from otherRows_base[OF t b this] show ?thesis .
qed

lemma run_scope_rows:
  assumes "fault AggDelete = None"
  shows "scopeRows (snd (aggregateAssignmentTags fault llm nowIso d stateRow))
            (st_owner_id stateRow) (st_assignment_id stateRow)
          = scopeRows d (st_owner_id stateRow) (st_assignment_id stateRow)
      \<or> scopeRows (snd (aggregateAssignmentTags fault llm nowIso d stateRow))
            (st_owner_id stateRow) (st_assignment_id stateRow) = []
      \<or> (\<exists>rawTags. llm = Inr rawTags \<and> fault AggInsert = None
           \<and> scopeRows (snd (aggregateAssignmentTags fault llm nowIso d stateRow))
                (st_owner_id stateRow) (st_assignment_id stateRow)
              = aggregateRows (st_owner_id stateRow) (st_assignment_id stateRow) nowIso
                  TAG_MODEL TAG_PROMPT_VERSION
                  (normalizedTags
                     (int (length (filter (\<lambda>row. sub_owner_id row = st_owner_id stateRow
                                    \<and> sub_assignment_id row = st_assignment_id stateRow
                                    \<and> (sub_grading_result row \<noteq> GrNull
                                         \<or> sub_status row = Some ''graded''))
                             (db_submissions d))))
                     rawTags))"
proof -
  let ?o = "st_owner_id stateRow" and ?a = "st_assignment_id stateRow"
  let ?d' = "snd (aggregateAssignmentTags fault llm nowIso d stateRow)"
  let ?new = "\<lambda>rawTags. aggregateRows ?o ?a nowIso TAG_MODEL TAG_PROMPT_VERSION
                  (normalizedTags
                     (int (length (filter (\<lambda>row. sub_owner_id row = ?o \<and> sub_assignment_id row = ?a
                                    \<and> (sub_grading_result row \<noteq> GrNull
                                         \<or> sub_status row = Some ''graded''))
                             (db_submissions d))))
                     rawTags)"
  from run_written[of fault llm nowIso d stateRow] obtain base written where
    t: "db_aggregates ?d' = base @ written"
    and b: "base = db_aggregates d \<or> base = otherRows d ?o ?a"
    and w: "written = [] \<or> (\<exists>rawTags. llm = Inr rawTags \<and> fault AggInsert = None
              \<and> written = ?new rawTags)"
    and f: "fault AggDelete = None \<and> written \<noteq> [] \<longrightarrow> base = otherRows d ?o ?a"
    by blast
  show ?thesis
  proof (cases "written = []")
    case True
    with t b have "db_aggregates ?d' = db_aggregates d \<or> db_aggregates ?d' = otherRows d ?o ?a"
      by auto
    then have "scopeRows ?d' ?o ?a = scopeRows d ?o ?a \<or> scopeRows ?d' ?o ?a = []"
      by (auto simp: scopeRows_def otherRows_def)
    then show ?thesis by blast
  next
    case False
    with w obtain rawTags where l: "llm = Inr rawTags" and i: "fault AggInsert = None"
      and wr: "written = ?new rawTags"
      by blast
    from f False assms have "base = otherRows d ?o ?a" by simp
    with t have "db_aggregates ?d' = otherRows d ?o ?a @ written" by simp
    from scopeRows_base[OF this] wr have "scopeRows ?d' ?o ?a = ?new rawTags"
      using sameScope_aggregateRows by blast
    with l i show ?thesis by blast
  qed
qed

lemma otherRows_sweepStep:
  "otherRows (snd (sweepStep fault llm nowIso d stateRow)) ownerId a
     = otherRows (snd (aggregateAssignmentTags fault llm nowIso d stateRow)) ownerId a"
  by (rule otherRows_cong) (rule sweepStep_aggregates)

lemma scopeRows_sweepStep:
  "scopeRows (snd (sweepStep fault llm nowIso d stateRow)) ownerId a
     = scopeRows (snd (aggregateAssignmentTags fault llm nowIso d stateRow)) ownerId a"
  by (simp add: scopeRows_def sweepStep_aggregates)

lemma run_insert_fails:
  assumes "st_owner_id stateRow \<noteq> []" and "\<not> st_manual_locked stateRow"
    and "fault AssignmentSelect = None" and "fault RunningUpdate = None"
    and "fault SubmissionsSelect = None" and "fault DictionarySelect = None"
    and "\<not> int (length (gradedSubmissions (filter (\<lambda>row. sub_owner_id row = st_owner_id stateRow
                 \<and> sub_assignment_id row = st_assignment_id stateRow) (db_submissions d))))
            < int TAG_MIN_SAMPLE_COUNT"
    and "issueStats (gradedSubmissions (filter (\<lambda>row. sub_owner_id row = st_owner_id stateRow
                 \<and> sub_assignment_id row = st_assignment_id stateRow) (db_submissions d))) \<noteq> []"
    and "llm = Inr rawTags"
    and "normalizedTags (int (length (gradedSubmissions (filter (\<lambda>row. sub_owner_id row = st_owner_id stateRow
                 \<and> sub_assignment_id row = st_assignment_id stateRow) (db_submissions d))))) rawTags \<noteq> []"
    and "fault DictionaryInsert = None" and "fault MergeStateUpsert = None"
    and "fault AggDelete = None" and "fault AggInsert = Some e"
  shows "fst (sweepStep fault llm nowIso d stateRow) = Inl e
    \<and> scopeRows (snd (sweepStep fault llm nowIso d stateRow))
         (st_owner_id stateRow) (st_assignment_id stateRow) = []"
proof -
  let ?o = "st_owner_id stateRow" and ?a = "st_assignment_id stateRow"
  let ?d1 = "updateState d (?o, ?a) (\<lambda>st. st\<lparr> st_status := Running, st_updated_at := Some nowIso \<rparr>)"
  let ?n = "int (length (gradedSubmissions (filter (\<lambda>row. sub_owner_id row = ?o
                 \<and> sub_assignment_id row = ?a) (db_submissions d))))"
  have r: "aggregateAssignmentTags fault llm nowIso d stateRow
      = writeTags fault nowIso ?d1 ?o ?a ?n (normalizedTags ?n rawTags)"
    by (rule sweepStep_reached[OF assms(1-10)])
  have e: "fst (aggregateAssignmentTags fault llm nowIso d stateRow) = Inl e"
    unfolding r by (rule writeTags_reached(2)[OF assms(11,12,13,14)])
  have "db_aggregates (snd (aggregateAssignmentTags fault llm nowIso d stateRow))
      = otherRows ?d1 ?o ?a @ []"
    unfolding r using writeTags_reached(1)[OF assms(11,12,13), of nowIso ?d1 ?o ?a ?n
        "normalizedTags ?n rawTags"] assms(14) by simp
  then have "scopeRows (snd (aggregateAssignmentTags fault llm nowIso d stateRow)) ?o ?a = []"
    by (simp add: scopeRows_def otherRows_def)
  with e show ?thesis
    by (simp add: sweepStep_fst scopeRows_sweepStep)
qed



lemma exampleTwoScope_reach:
  "st_owner_id (touchRow 0 ''o'' ''a'' None) = ''o''"
  "st_assignment_id (touchRow 0 ''o'' ''a'' None) = ''a''"
  "\<not> st_manual_locked (touchRow 0 ''o'' ''a'' None)"
  "int (length (gradedSubmissions
       (filter (\<lambda>row. sub_owner_id row = ''o'' \<and> sub_assignment_id row = ''a'')
          (db_submissions exampleTwoScopeDb)))) = 5"
  "issueStats (gradedSubmissions
       (filter (\<lambda>row. sub_owner_id row = ''o'' \<and> sub_assignment_id row = ''a'')
          (db_submissions exampleTwoScopeDb))) \<noteq> []"
  "normalizedTags 5 [exampleTag ''signs'' 3] \<noteq> []"
  "int TAG_MIN_SAMPLE_COUNT = 5"
  by code_simp+



lemma exampleMixedRun_rows:
  "fst (aggregateAssignmentTags noFaults (Inr [exampleTag ''units'' 1, exampleTag ''signs'' 9]) 5
          exampleMixedDb (touchRow 0 ''o'' ''a'' None)) = Inr (RunReady, 5)
   \<and> map (\<lambda>r. (ar_tag_label r, ar_tag_count r))
        (scopeRows (snd (aggregateAssignmentTags noFaults
            (Inr [exampleTag ''units'' 1, exampleTag ''signs'' 9]) 5
            exampleMixedDb (touchRow 0 ''o'' ''a'' None))) ''o'' ''a'')
       = [(''signs'', 5), (''units'', 1)]
   \<and> length (filter (\<lambda>row. sub_owner_id row = ''o'' \<and> sub_assignment_id row = ''a'')
        (db_submissions exampleMixedDb)) = 8"
  by code_simp


end
